theory Spec2Isabelle
  imports Complex_Main "HOL-Library.Multiset"
begin

section \<open>The SSND benchmark loader (ssnd\_loader.py)\<close>

text \<open>
  A shallow embedding of the loader: the text of an archive entry is a \<open>string\<close> whose
  characters stand for code points below 256, every Python exception is a value of
  \<open>error\<close>, and a function that may raise returns \<open>error + 'a\<close> with the
  exception on the left. A Python \<open>dict\<close> is an association list in insertion order
  with one pair per key.
\<close>

subsection \<open>Exceptions\<close>

text \<open>
  The exceptions the loader can raise are those of the built-ins it calls, and the
  \<open>ValueError\<close> that \<open>_lit\<close> raises itself. Each constructor records where the
  exception comes from; \<open>exn_class\<close> gives the Python class.
\<close>

datatype error =
    LitError string          \<comment> \<open>\<open>ValueError\<close> raised by \<open>_lit\<close>, with its message\<close>
  | IntError string          \<comment> \<open>\<open>ValueError\<close> of \<open>int(s)\<close> on the text \<open>s\<close>\<close>
  | FloatError string        \<comment> \<open>\<open>ValueError\<close> of \<open>float(s)\<close> on the text \<open>s\<close>\<close>
  | UnpackError nat nat      \<comment> \<open>\<open>ValueError\<close> of unpacking: expected, got\<close>
  | IndexError               \<comment> \<open>index out of range\<close>
  | KeyError string          \<comment> \<open>missing dictionary key\<close>
  | TypeError                \<comment> \<open>operation on a value of the wrong type\<close>
  | OverflowError            \<comment> \<open>\<open>float(n)\<close> on an integer too large for a float\<close>

fun exn_class :: "error \<Rightarrow> string" where
  "exn_class (LitError m) = ''ValueError''"
| "exn_class (IntError s) = ''ValueError''"
| "exn_class (FloatError s) = ''ValueError''"
| "exn_class (UnpackError n m) = ''ValueError''"
| "exn_class IndexError = ''IndexError''"
| "exn_class (KeyError k) = ''KeyError''"
| "exn_class TypeError = ''TypeError''"
| "exn_class OverflowError = ''OverflowError''"

text \<open>
  The text an exception carries: the message written by \<open>_lit\<close>, the offending text of
  a failed conversion, the missing key. \<open>IndexError\<close>, \<open>TypeError\<close>,
  \<open>OverflowError\<close> and the unpacking error carry fixed interpreter messages that quote
  nothing of the input.
\<close>

fun exn_text :: "error \<Rightarrow> string" where
  "exn_text (LitError m) = m"
| "exn_text (IntError s) = s"
| "exn_text (FloatError s) = s"
| "exn_text (UnpackError n m) = []"
| "exn_text IndexError = []"
| "exn_text (KeyError k) = k"
| "exn_text TypeError = []"
| "exn_text OverflowError = []"

definition ebind :: "error + 'a \<Rightarrow> ('a \<Rightarrow> error + 'b) \<Rightarrow> error + 'b" where
  "ebind m f = (case m of Inl e \<Rightarrow> Inl e | Inr x \<Rightarrow> f x)"

subsection \<open>Strings\<close>

definition TAB :: char where "TAB = CHR 0x09"
definition LF :: char where "LF = CHR 0x0A"
definition CR :: char where "CR = CHR 0x0D"

text \<open>\<open>str.isspace\<close> below code point 256.\<close>

definition is_space :: "char \<Rightarrow> bool" where
  "is_space c = (c \<in> set [CHR 0x09, CHR 0x0A, CHR 0x0B, CHR 0x0C, CHR 0x0D, CHR 0x1C,
                          CHR 0x1D, CHR 0x1E, CHR 0x1F, CHR 0x20, CHR 0x85, CHR 0xA0])"

text \<open>The line boundaries of \<open>str.splitlines\<close> below code point 256.\<close>

definition is_linebreak :: "char \<Rightarrow> bool" where
  "is_linebreak c = (c \<in> set [CHR 0x0A, CHR 0x0B, CHR 0x0C, CHR 0x0D, CHR 0x1C,
                              CHR 0x1D, CHR 0x1E, CHR 0x85])"

definition is_digit :: "char \<Rightarrow> bool" where
  "is_digit c = (c \<in> set ''0123456789'')"

definition strip :: "string \<Rightarrow> string" where
  "strip s = rev (dropWhile is_space (rev (dropWhile is_space s)))"

text \<open>
  The white space that \<open>int(s)\<close> and \<open>float(s)\<close> drop around a number: the
  separators \<open>0x1C\<close> to \<open>0x1F\<close> are not part of it.
\<close>

definition is_num_space :: "char \<Rightarrow> bool" where
  "is_num_space c = (c \<in> set [CHR 0x09, CHR 0x0A, CHR 0x0B, CHR 0x0C, CHR 0x0D, CHR 0x20,
                              CHR 0x85, CHR 0xA0])"

definition num_strip :: "string \<Rightarrow> string" where
  "num_strip s = rev (dropWhile is_num_space (rev (dropWhile is_num_space s)))"

text \<open>\<open>s.replace(c, "")\<close> for a one-character \<open>c\<close>.\<close>

definition remove_char :: "char \<Rightarrow> string \<Rightarrow> string" where
  "remove_char c s = filter (\<lambda>x. x \<noteq> c) s"

text \<open>
  \<open>str.splitlines()\<close>: \<open>cur\<close> is the current line, reversed. A carriage return
  followed by a line feed is one boundary; a final boundary opens no empty line.
\<close>

fun splitlines_from :: "string \<Rightarrow> string \<Rightarrow> string list" where
  "splitlines_from cur [] = (if cur = [] then [] else [rev cur])"
| "splitlines_from cur (c # cs) =
     (if c = CR \<and> cs \<noteq> [] \<and> hd cs = LF then rev cur # splitlines_from [] (tl cs)
      else if is_linebreak c then rev cur # splitlines_from [] cs
      else splitlines_from (c # cur) cs)"

definition splitlines :: "string \<Rightarrow> string list" where
  "splitlines s = splitlines_from [] s"

text \<open>\<open>s.split(c)\<close> for a one-character separator: never empty, keeps empty fields.\<close>

fun split_on :: "char \<Rightarrow> string \<Rightarrow> string list" where
  "split_on c [] = [[]]"
| "split_on c (x # xs) =
     (if x = c then [] # split_on c xs
      else (case split_on c xs of [] \<Rightarrow> [[x]] | y # ys \<Rightarrow> (x # y) # ys))"

text \<open>\<open>s.split(c, 1)\<close>: at most one split, at the first \<open>c\<close>.\<close>

definition split_first :: "char \<Rightarrow> string \<Rightarrow> string list" where
  "split_first c s =
     (if c \<in> set s then [takeWhile (\<lambda>x. x \<noteq> c) s, tl (dropWhile (\<lambda>x. x \<noteq> c) s)]
      else [s])"

definition startswith :: "string \<Rightarrow> string \<Rightarrow> bool" where
  "startswith s p = (take (length p) s = p)"

text \<open>\<open>str.lower\<close> below code point 256: the ASCII and the Latin-1 capitals.\<close>

definition lower_char :: "char \<Rightarrow> char" where
  "lower_char c =
     (let n = (of_char c :: nat)
      in if (65 \<le> n \<and> n \<le> 90) \<or> (192 \<le> n \<and> n \<le> 222 \<and> n \<noteq> 215)
         then char_of (n + 32) else c)"

definition lower :: "string \<Rightarrow> string" where
  "lower s = map lower_char s"

text \<open>Unpacking a list into two, three or four names.\<close>

definition unpack2 :: "'a list \<Rightarrow> error + ('a \<times> 'a)" where
  "unpack2 xs = (case xs of [a, b] \<Rightarrow> Inr (a, b) | _ \<Rightarrow> Inl (UnpackError 2 (length xs)))"

definition unpack3 :: "'a list \<Rightarrow> error + ('a \<times> 'a \<times> 'a)" where
  "unpack3 xs =
     (case xs of [a, b, c] \<Rightarrow> Inr (a, b, c) | _ \<Rightarrow> Inl (UnpackError 3 (length xs)))"

definition unpack4 :: "'a list \<Rightarrow> error + ('a \<times> 'a \<times> 'a \<times> 'a)" where
  "unpack4 xs =
     (case xs of [a, b, c, d] \<Rightarrow> Inr (a, b, c, d)
      | _ \<Rightarrow> Inl (UnpackError 4 (length xs)))"

text \<open>\<open>xs[i]\<close> for a constant index \<open>i \<ge> 0\<close>.\<close>

definition item :: "'a list \<Rightarrow> nat \<Rightarrow> error + 'a" where
  "item xs i = (if i < length xs then Inr (xs ! i) else Inl IndexError)"

subsection \<open>Numbers from text\<close>

definition digit_val :: "char \<Rightarrow> nat" where
  "digit_val c = of_char c - 48"

definition nat_of_digits :: "string \<Rightarrow> nat" where
  "nat_of_digits ds = foldl (\<lambda>n c. 10 * n + digit_val c) 0 ds"

text \<open>The same number as an integer, which is what the conversions compute with.\<close>

definition int_of_digits :: "string \<Rightarrow> int" where
  "int_of_digits ds = foldl (\<lambda>n c. 10 * n + int (digit_val c)) 0 ds"

text \<open>
  The digit part of \<open>int(s)\<close>: digits, with single underscores between digits.
\<close>

fun digits_ok :: "string \<Rightarrow> bool" where
  "digits_ok [] = False"
| "digits_ok [c] = is_digit c"
| "digits_ok (c # d # cs) =
     (is_digit c \<and> (if d = CHR ''_'' then cs \<noteq> [] \<and> digits_ok cs else digits_ok (d # cs)))"

text \<open>
  \<open>int(s)\<close> on text: surrounding white space is dropped, one sign is allowed. The cap of
  recent interpreters on the number of digits is a run-time setting and is left out.
\<close>

definition py_int :: "string \<Rightarrow> error + int" where
  "py_int s =
     (let t = num_strip s;
          neg = (t \<noteq> [] \<and> hd t = CHR ''-'');
          body = (if t \<noteq> [] \<and> (hd t = CHR ''-'' \<or> hd t = CHR ''+'') then tl t else t)
      in if digits_ok body
         then (let n = int_of_digits (remove_char (CHR ''_'') body)
               in Inr (if neg then - n else n))
         else Inl (IntError s))"

text \<open>
  A Python \<open>float\<close> is modelled by the rational its text denotes. \<open>float(s)\<close> is
  modelled on plain decimal notation: white space around, one sign, digits with an
  optional fractional part (or a point followed by digits). Exponents, underscores,
  \<open>inf\<close> and \<open>nan\<close> are outside the model and are rejected by it, and the value
  of a text is not rounded to binary64.
\<close>

definition py_float :: "string \<Rightarrow> error + rat" where
  "py_float s =
     (let t = num_strip s;
          neg = (t \<noteq> [] \<and> hd t = CHR ''-'');
          body = (if t \<noteq> [] \<and> (hd t = CHR ''-'' \<or> hd t = CHR ''+'') then tl t else t);
          ip = takeWhile is_digit body;
          r = dropWhile is_digit body;
          fp = (if r \<noteq> [] \<and> hd r = CHR ''.'' then tl r else [])
      in if (r = [] \<and> ip \<noteq> []) \<or>
            (r \<noteq> [] \<and> hd r = CHR ''.'' \<and> list_all is_digit fp \<and> (ip \<noteq> [] \<or> fp \<noteq> []))
         then (let v = (of_int (int_of_digits ip) :: rat) +
                       of_int (int_of_digits fp) / of_int (10 ^ length fp)
               in Inr (if neg then - v else v))
         else Inl (FloatError s))"

text \<open>
  \<open>float(n)\<close> on an integer is the nearest binary64 value: an integer of more than
  53 bits keeps its 53 leading bits, rounded to nearest with ties to even, and the call
  raises \<open>OverflowError\<close> when the rounded value has more than 1024 bits, that is,
  when it reaches \<open>2 ^ 1024\<close>. \<open>shift_right a k\<close> is \<open>a div 2 ^ k\<close> and
  \<open>shift_left a k\<close> is \<open>a * 2 ^ k\<close>.
\<close>

function bit_len :: "int \<Rightarrow> nat" where
  "bit_len a = (if a \<le> 0 then 0 else Suc (bit_len (a div 2)))"
  by pat_completeness auto
termination
  by (relation "measure nat") auto

declare bit_len.simps [simp del]

fun shift_right :: "int \<Rightarrow> nat \<Rightarrow> int" where
  "shift_right a 0 = a"
| "shift_right a (Suc k) = shift_right (a div 2) k"

fun shift_left :: "int \<Rightarrow> nat \<Rightarrow> int" where
  "shift_left a 0 = a"
| "shift_left a (Suc k) = shift_left (2 * a) k"

text \<open>The nearest binary64 value of an integer \<open>a \<ge> 0\<close>, before the range check.\<close>

definition round_double :: "int \<Rightarrow> int" where
  "round_double a =
     (if bit_len a \<le> 53 then a
      else (let sh = bit_len a - 53;
                q = shift_right a sh;
                r = a - shift_left q sh;
                half = shift_left 1 (sh - 1)
            in shift_left (if half < r \<or> (r = half \<and> odd q) then q + 1 else q) sh))"

definition float_of_int :: "int \<Rightarrow> error + rat" where
  "float_of_int n =
     (let d = round_double \<bar>n\<bar>
      in if 1024 < bit_len d then Inl OverflowError
         else Inr (if n < 0 then - of_int d else of_int d))"

subsection \<open>Python values\<close>

text \<open>
  The values of type \<open>Any\<close> that the loader handles. Equality of these terms is
  Python's \<open>==\<close> on the values that \<open>literal_eval\<close> below produces (integers,
  tuples and lists), which are the only ones used as dictionary keys.
\<close>

datatype pyval =
    VInt int
  | VFloat rat
  | VStr string
  | VTuple "pyval list"
  | VList "pyval list"

text \<open>A list, or a value holding one, cannot be hashed and so cannot be a key.\<close>

fun hashable :: "pyval \<Rightarrow> bool" where
  "hashable (VInt n) = True"
| "hashable (VFloat r) = True"
| "hashable (VStr s) = True"
| "hashable (VTuple xs) = (\<forall>x \<in> set xs. hashable x)"
| "hashable (VList xs) = False"

text \<open>\<open>int(v)\<close>, \<open>float(v)\<close>, \<open>list(v)\<close> or \<open>tuple(v)\<close>, and \<open>v[i]\<close>.\<close>

fun int_of_val :: "pyval \<Rightarrow> error + int" where
  "int_of_val (VInt n) = Inr n"
| "int_of_val (VFloat r) = Inr (if 0 \<le> r then \<lfloor>r\<rfloor> else \<lceil>r\<rceil>)"
| "int_of_val (VStr s) = py_int s"
| "int_of_val (VTuple xs) = Inl TypeError"
| "int_of_val (VList xs) = Inl TypeError"

fun float_of_val :: "pyval \<Rightarrow> error + rat" where
  "float_of_val (VInt n) = float_of_int n"
| "float_of_val (VFloat r) = Inr r"
| "float_of_val (VStr s) = py_float s"
| "float_of_val (VTuple xs) = Inl TypeError"
| "float_of_val (VList xs) = Inl TypeError"

fun elems_of_val :: "pyval \<Rightarrow> error + pyval list" where
  "elems_of_val (VInt n) = Inl TypeError"
| "elems_of_val (VFloat r) = Inl TypeError"
| "elems_of_val (VStr s) = Inr (map (\<lambda>c. VStr [c]) s)"
| "elems_of_val (VTuple xs) = Inr xs"
| "elems_of_val (VList xs) = Inr xs"

definition getitem :: "pyval \<Rightarrow> nat \<Rightarrow> error + pyval" where
  "getitem v i = ebind (elems_of_val v) (\<lambda>xs. item xs i)"

subsection \<open>The literal decoder\<close>

text \<open>
  \<open>ast.literal_eval\<close> is modelled on the literals the instance files are written
  with: decimal integers with an optional sign, tuples and lists of literals, nested to
  any depth, with blanks and tabs between tokens, a trailing comma allowed, and a bare
  comma-separated sequence read as a tuple. Any other text (strings, floats, dictionaries,
  underscores in numbers, other bases) is rejected by the model.
\<close>

datatype bracket = Paren | Brack

datatype token = TNum int | TComma | TOpen bracket | TClose bracket

definition is_blank :: "char \<Rightarrow> bool" where
  "is_blank c = (c = CHR '' '' \<or> c = TAB)"

text \<open>A decimal integer literal has no leading zero unless it is all zeros.\<close>

definition int_literal_ok :: "string \<Rightarrow> bool" where
  "int_literal_ok ds = (ds \<noteq> [] \<and> (hd ds \<noteq> CHR ''0'' \<or> (\<forall>c \<in> set ds. c = CHR ''0'')))"

text \<open>
  The token that starts with the character \<open>c\<close> followed by \<open>cs\<close> (none for a
  blank), and how many characters of \<open>cs\<close> it takes. A sign belongs to the integer
  that follows it.
\<close>

definition next_token :: "char \<Rightarrow> string \<Rightarrow> (token option \<times> nat) option" where
  "next_token c cs =
     (if is_blank c then Some (None, 0)
      else if c = CHR '','' then Some (Some TComma, 0)
      else if c = CHR ''('' then Some (Some (TOpen Paren), 0)
      else if c = CHR '')'' then Some (Some (TClose Paren), 0)
      else if c = CHR ''['' then Some (Some (TOpen Brack), 0)
      else if c = CHR '']'' then Some (Some (TClose Brack), 0)
      else if is_digit c then
        (let ds = c # takeWhile is_digit cs
         in if int_literal_ok ds
            then Some (Some (TNum (int_of_digits ds)), length ds - 1)
            else None)
      else if c = CHR ''-'' \<or> c = CHR ''+'' then
        (let bl = takeWhile is_blank cs;
             ds = takeWhile is_digit (dropWhile is_blank cs);
             n = int_of_digits ds
         in if int_literal_ok ds
            then Some (Some (TNum (if c = CHR ''-'' then - n else n)), length bl + length ds)
            else None)
      else None)"

fun lex :: "string \<Rightarrow> token list option" where
  "lex [] = Some []"
| "lex (c # cs) =
     (case next_token c cs of
        None \<Rightarrow> None
      | Some (t, n) \<Rightarrow>
          (case lex (drop n cs) of
             None \<Rightarrow> None
           | Some ts \<Rightarrow> Some (case t of None \<Rightarrow> ts | Some tk \<Rightarrow> tk # ts)))"

text \<open>
  The parser keeps, for the bracket being read, the items so far (reversed), whether
  the last token ended an item, and whether a comma has been seen; the stack holds the
  same for the enclosing brackets.
\<close>

type_synonym frame = "pyval list \<times> bool \<times> bool"

definition push_val :: "pyval \<Rightarrow> frame \<Rightarrow> frame option" where
  "push_val v f = (case f of (items, after, comma) \<Rightarrow>
     if after then None else Some (v # items, True, comma))"

definition close_paren :: "frame \<Rightarrow> pyval option" where
  "close_paren f = (case f of (items, after, comma) \<Rightarrow>
     if comma \<or> items = [] then Some (VTuple (rev items))
     else (case items of [v] \<Rightarrow> Some v | _ \<Rightarrow> None))"

definition close_brack :: "frame \<Rightarrow> pyval option" where
  "close_brack f = (case f of (items, after, comma) \<Rightarrow> Some (VList (rev items)))"

fun parse_tokens :: "(bracket \<times> frame) list \<Rightarrow> frame \<Rightarrow> token list \<Rightarrow> pyval option" where
  "parse_tokens st f [] =
     (if st = [] \<and> fst f \<noteq> [] then close_paren f else None)"
| "parse_tokens st f (TNum n # ts) =
     (case push_val (VInt n) f of None \<Rightarrow> None | Some f' \<Rightarrow> parse_tokens st f' ts)"
| "parse_tokens st f (TComma # ts) =
     (case f of (items, after, comma) \<Rightarrow>
        if after then parse_tokens st (items, False, True) ts else None)"
| "parse_tokens st f (TOpen b # ts) =
     (case f of (items, after, comma) \<Rightarrow>
        if after then None else parse_tokens ((b, f) # st) ([], False, False) ts)"
| "parse_tokens [] f (TClose b # ts) = None"
| "parse_tokens ((b', pf) # st) f (TClose b # ts) =
     (if b \<noteq> b' then None
      else (case (if b = Paren then close_paren f else close_brack f) of
              None \<Rightarrow> None
            | Some v \<Rightarrow> (case push_val v pf of
                          None \<Rightarrow> None
                        | Some pf' \<Rightarrow> parse_tokens st pf' ts)))"

definition literal_eval :: "string \<Rightarrow> pyval option" where
  "literal_eval s =
     (case lex s of None \<Rightarrow> None | Some ts \<Rightarrow> parse_tokens [] ([], False, False) ts)"

text \<open>\<open>_lit\<close>: every failure of the decoder becomes a \<open>ValueError\<close> with an excerpt.\<close>

definition lit :: "string \<Rightarrow> error + pyval" where
  "lit x =
     (case literal_eval x of
        Some v \<Rightarrow> Inr v
      | None \<Rightarrow> Inl (LitError (''literal_eval failed on: '' @ take 200 x @ ''...'')))"

definition clean :: "string \<Rightarrow> string" where
  "clean s = remove_char CR (strip s)"

subsection \<open>Dictionaries\<close>

text \<open>
  \<open>d[k] = v\<close>: a key already present keeps its place and takes the new value, a new
  key goes to the end.
\<close>

fun dict_set :: "('k \<times> 'v) list \<Rightarrow> 'k \<Rightarrow> 'v \<Rightarrow> ('k \<times> 'v) list" where
  "dict_set [] k v = [(k, v)]"
| "dict_set ((k', v') # d) k v =
     (if k' = k then (k', v) # d else (k', v') # dict_set d k v)"

definition dict_get :: "('k \<times> 'v) list \<Rightarrow> 'k \<Rightarrow> 'v option" where
  "dict_get d k = map_of d k"

definition keys :: "('k \<times> 'v) list \<Rightarrow> 'k list" where
  "keys d = map fst d"

text \<open>\<open>d[k]\<close> on a dictionary with text keys.\<close>

definition lookup :: "(string \<times> 'v) list \<Rightarrow> string \<Rightarrow> error + 'v" where
  "lookup d k = (case dict_get d k of None \<Rightarrow> Inl (KeyError k) | Some v \<Rightarrow> Inr v)"

text \<open>\<open>d[k] = v\<close> where the key is a decoded literal: it must be hashable.\<close>

definition store :: "(pyval \<times> 'v) list \<Rightarrow> pyval \<Rightarrow> 'v \<Rightarrow> error + (pyval \<times> 'v) list" where
  "store d k v = (if hashable k then Inr (dict_set d k v) else Inl TypeError)"

text \<open>\<open>d.get(k, [])\<close>.\<close>

definition get_or_empty :: "(string \<times> 'a list) list \<Rightarrow> string \<Rightarrow> 'a list" where
  "get_or_empty d k = (case dict_get d k of None \<Rightarrow> [] | Some v \<Rightarrow> v)"

text \<open>
  \<open>for x in xs: body\<close> on a state \<open>s\<close>: the first exception leaves the loop.
\<close>

fun for_each :: "('s \<Rightarrow> 'a \<Rightarrow> error + 's) \<Rightarrow> 'a list \<Rightarrow> 's \<Rightarrow> error + 's" where
  "for_each body [] s = Inr s"
| "for_each body (x # xs) s =
     (case body s x of Inl e \<Rightarrow> Inl e | Inr s' \<Rightarrow> for_each body xs s')"

subsection \<open>The section splitter\<close>

text \<open>
  The cursor \<open>i\<close> of \<open>_section_blocks\<close> is represented by the lines from \<open>i\<close>
  on. \<open>take_table\<close> gives the rows up to the first empty line, and the lines left.
\<close>

definition take_table :: "string list \<Rightarrow> string list \<times> string list" where
  "take_table ls = (takeWhile (\<lambda>l. l \<noteq> []) ls, dropWhile (\<lambda>l. l \<noteq> []) ls)"

text \<open>
  The first loop: it stops at a line that starts with \<open>Arcs \<close>, skips an empty line,
  stores a line that holds a blank under the text before its first blank, and passes
  over any other line.
\<close>

fun header_scan :: "(string \<times> string) list \<Rightarrow> string list
    \<Rightarrow> (string \<times> string) list \<times> string list" where
  "header_scan header [] = (header, [])"
| "header_scan header (line # ls) =
     (if startswith line ''Arcs '' then (header, line # ls)
      else if line = [] then header_scan header ls
      else if CHR '' '' \<in> set line
        then header_scan
               (dict_set header (takeWhile (\<lambda>x. x \<noteq> CHR '' '') line)
                  (tl (dropWhile (\<lambda>x. x \<noteq> CHR '' '') line))) ls
      else header_scan header ls)"

text \<open>
  \<open>c.join(xs)\<close> for a one-character \<open>c\<close>; the header rows of the tables are
  fields joined by tabs.
\<close>

fun join_with :: "char \<Rightarrow> string list \<Rightarrow> string" where
  "join_with c [] = []"
| "join_with c [x] = x"
| "join_with c (x # y # ys) = x @ c # join_with c (y # ys)"

definition tabbed :: "string list \<Rightarrow> string" where
  "tabbed fields = join_with TAB fields"

definition tables :: "(string \<times> string) list" where
  "tables =
     [(''SERVICES'', tabbed [''serviceID'', ''Services'', ''origin'', ''alpha'',
                             ''destination'', ''beta'', ''TranCost'', ''fs'']),
      (''REQS'', tabbed [''reqs'', ''origins'', ''destinations'', ''alphas'', ''betas'',
                         ''contract_based'', ''rhos'', ''ws'']),
      (''HOLDING'', tabbed [''HoldingArcs'', ''HoldingCost'']),
      (''PSI'', tabbed [''reqs'', ''times'', ''alphaPsi'', ''betaPsi'']),
      (''EIN'', tabbed [''TimeNodes'', ''ExecArcsIn'']),
      (''EOUT'', tabbed [''TimeNodes'', ''ExecArcsOut''])]"

type_synonym blocks = "(string \<times> string list) list"

fun scan_tables :: "(string \<times> string) list \<Rightarrow> blocks \<Rightarrow> string list \<Rightarrow> blocks" where
  "scan_tables [] blocks ls = blocks"
| "scan_tables ((sec_name, header_row) # ts) blocks ls =
     (case dropWhile (\<lambda>l. l = []) ls of
        [] \<Rightarrow> scan_tables ts blocks []
      | l # ls1 \<Rightarrow>
          if l = header_row
          then (case take_table ls1 of
                  (tab, ls2) \<Rightarrow> scan_tables ts (dict_set blocks sec_name tab) ls2)
          else scan_tables ts blocks (l # ls1))"

definition section_blocks :: "string \<Rightarrow> blocks" where
  "section_blocks text =
     (case header_scan [] (map clean (splitlines text)) of
        (header, ls) \<Rightarrow>
          (case dict_set [] ''HEADER'' (map (\<lambda>(k, v). k @ '' '' @ v) header) of
             blocks \<Rightarrow>
               (case ls of
                  [] \<Rightarrow> scan_tables tables blocks []
                | l # ls1 \<Rightarrow>
                    if startswith l ''Arcs ''
                    then scan_tables tables
                           (dict_set blocks ''ARCS'' [drop (length ''Arcs '') l]) ls1
                    else scan_tables tables blocks (l # ls1))))"

subsection \<open>The row parsers\<close>

type_synonym header = "(string \<times> pyval) list"

definition header_row :: "header \<Rightarrow> string \<Rightarrow> error + header" where
  "header_row out line =
     ebind (unpack2 (split_first (CHR '' '') line)) (\<lambda>(key, val0).
       let val = strip val0
       in if key \<in> set [''NodeSize'', ''RequestSize'', ''ServiceNoPerArc'',
                         ''ServiceCapacity'', ''ServiceCost'']
            then ebind (py_int val) (\<lambda>n. Inr (dict_set out key (VInt n)))
          else if key = ''FastServiceRatio''
            then ebind (py_float val) (\<lambda>r. Inr (dict_set out key (VFloat r)))
          else if key = ''TimePeriods''
            then ebind (lit val) (\<lambda>v. Inr (dict_set out key v))
          else if key = ''RevenueRange''
            then ebind (lit val) (\<lambda>v. Inr (dict_set out key v))
          else if key = ''ReqDemandRange''
            then ebind (lit val) (\<lambda>v. Inr (dict_set out key v))
          else if key = ''Trans/HoldingCost''
            then ebind (lit val) (\<lambda>th.
                 ebind (getitem th 0) (\<lambda>t.
                 ebind (getitem th 1) (\<lambda>h.
                 Inr (dict_set (dict_set out ''TransCost'' t) ''HoldingCost'' h))))
          else if key = ''Name''
            then Inr (dict_set out ''Name'' (VStr val))
          else Inr (dict_set out key (VStr val)))"

definition parse_header :: "string list \<Rightarrow> error + header" where
  "parse_header header_lines = for_each header_row header_lines []"

type_synonym services_state =
  "pyval list \<times> (pyval \<times> rat) list \<times> (pyval \<times> rat) list"

definition services_row :: "services_state \<Rightarrow> string \<Rightarrow> error + services_state" where
  "services_row st line =
     (case st of (services, cs, fs) \<Rightarrow>
      let parts = split_on TAB line
      in ebind (item parts 0) (\<lambda>p0. ebind (py_int p0) (\<lambda>sid.
         ebind (item parts 1) (\<lambda>p1. ebind (lit p1) (\<lambda>arc.
         ebind (item parts 6) (\<lambda>p6. ebind (py_float p6) (\<lambda>c.
         ebind (item parts 7) (\<lambda>p7. ebind (py_float p7) (\<lambda>f.
         ebind (store cs arc c) (\<lambda>cs'.
         ebind (store fs arc f) (\<lambda>fs'.
         Inr (services @ [arc], cs', fs'))))))))))))"

definition parse_services :: "string list \<Rightarrow> error + services_state" where
  "parse_services lines = for_each services_row lines ([], [], [])"

record reqs_state =
  r_reqs :: "int list"
  r_os :: "(int \<times> int) list"
  r_ds :: "(int \<times> int) list"
  r_alphas :: "(int \<times> int) list"
  r_betas :: "(int \<times> int) list"
  r_is_contract :: "(int \<times> bool) list"
  r_rhos :: "(int \<times> rat) list"
  r_ws :: "(int \<times> int) list"

definition reqs_row :: "reqs_state \<Rightarrow> string \<Rightarrow> error + reqs_state" where
  "reqs_row st line =
     (let parts = split_on TAB line
      in ebind (item parts 0) (\<lambda>p0. ebind (py_int p0) (\<lambda>k.
         ebind (item parts 1) (\<lambda>p1. ebind (py_int p1) (\<lambda>ok.
         ebind (item parts 2) (\<lambda>p2. ebind (py_int p2) (\<lambda>dk.
         ebind (item parts 3) (\<lambda>p3. ebind (py_int p3) (\<lambda>ak.
         ebind (item parts 4) (\<lambda>p4. ebind (py_int p4) (\<lambda>bk.
         ebind (item parts 5) (\<lambda>p5.
         ebind (item parts 6) (\<lambda>p6. ebind (py_float p6) (\<lambda>rk.
         ebind (item parts 7) (\<lambda>p7. ebind (py_int p7) (\<lambda>wk.
         Inr \<lparr> r_reqs = r_reqs st @ [k],
               r_os = dict_set (r_os st) k ok,
               r_ds = dict_set (r_ds st) k dk,
               r_alphas = dict_set (r_alphas st) k ak,
               r_betas = dict_set (r_betas st) k bk,
               r_is_contract = dict_set (r_is_contract st) k (lower (strip p5) = ''true''),
               r_rhos = dict_set (r_rhos st) k rk,
               r_ws = dict_set (r_ws st) k wk \<rparr>))))))))))))))))"

definition parse_reqs :: "string list \<Rightarrow> error + reqs_state" where
  "parse_reqs lines =
     for_each reqs_row lines
       \<lparr> r_reqs = [], r_os = [], r_ds = [], r_alphas = [], r_betas = [],
         r_is_contract = [], r_rhos = [], r_ws = [] \<rparr>"

type_synonym holding_state = "pyval list \<times> (pyval \<times> rat) list"

definition holding_row :: "holding_state \<Rightarrow> string \<Rightarrow> error + holding_state" where
  "holding_row st line =
     (case st of (arcsH, chs) \<Rightarrow>
      ebind (unpack2 (split_on TAB line)) (\<lambda>(a_str, cost_str).
      ebind (lit a_str) (\<lambda>a.
      ebind (py_float cost_str) (\<lambda>c.
      ebind (store chs a c) (\<lambda>chs'.
      Inr (arcsH @ [a], chs'))))))"

definition parse_holding :: "string list \<Rightarrow> error + holding_state" where
  "parse_holding lines = for_each holding_row lines ([], [])"

type_synonym psis_state = "((int \<times> int) \<times> rat) list \<times> ((int \<times> int) \<times> rat) list"

definition psis_row :: "psis_state \<Rightarrow> string \<Rightarrow> error + psis_state" where
  "psis_row st line =
     (case st of (alphaPsis, betaPsis) \<Rightarrow>
      ebind (unpack4 (split_on TAB line)) (\<lambda>(k_str, t_str, apsi_str, bpsi_str).
      ebind (py_int k_str) (\<lambda>k.
      ebind (py_int t_str) (\<lambda>t.
      ebind (py_float apsi_str) (\<lambda>a.
      ebind (py_float bpsi_str) (\<lambda>b.
      Inr (dict_set alphaPsis (k, t) a, dict_set betaPsis (k, t) b)))))))"

definition parse_psis :: "string list \<Rightarrow> error + psis_state" where
  "parse_psis lines = for_each psis_row lines ([], [])"

definition exec_row :: "(pyval \<times> pyval) list \<Rightarrow> string \<Rightarrow> error + (pyval \<times> pyval) list" where
  "exec_row out line =
     ebind (unpack2 (split_on TAB line)) (\<lambda>(tn_str, arcs_str).
     ebind (lit tn_str) (\<lambda>tn.
     ebind (if arcs_str \<noteq> [] then lit arcs_str else Inr (VList [])) (\<lambda>arcs.
     store out tn arcs)))"

definition parse_exec_lists :: "string list \<Rightarrow> error + (pyval \<times> pyval) list" where
  "parse_exec_lists lines = for_each exec_row lines []"

subsection \<open>The instance record and its assembly\<close>

record SSNDInstance =
  name :: pyval
  NodeSize :: int
  TimePeriods :: "pyval list"
  RequestSize :: int
  ServiceNoPerArc :: int
  ServiceCapacity :: int
  FastServiceRatio :: rat
  RevenueRange :: "pyval list"
  ReqDemandRange :: "pyval list"
  ServiceCost :: int
  TransCost :: int
  HoldingCost :: int
  physical_arcs :: "pyval list"
  tnodes :: "pyval list"
  services :: "pyval list"
  cs :: "(pyval \<times> rat) list"
  fs :: "(pyval \<times> rat) list"
  us :: "(pyval \<times> rat) list"
  reqs :: "int list"
  os :: "(int \<times> int) list"
  ds :: "(int \<times> int) list"
  alphas :: "(int \<times> int) list"
  betas :: "(int \<times> int) list"
  is_contract :: "(int \<times> bool) list"
  rhos :: "(int \<times> rat) list"
  ws :: "(int \<times> int) list"
  holding_arcs :: "pyval list"
  chs :: "(pyval \<times> rat) list"
  alphaPsis :: "((int \<times> int) \<times> rat) list"
  betaPsis :: "((int \<times> int) \<times> rat) list"
  arcsEin :: "(pyval \<times> pyval) list"
  arcsEout :: "(pyval \<times> pyval) list"

text \<open>\<open>str(n)\<close> for the integers of a file name, which have no sign.\<close>

fun str_of_nat :: "nat \<Rightarrow> string" where
  "str_of_nat n =
     (if n < 10 then [char_of (48 + n)]
      else str_of_nat (n div 10) @ [char_of (48 + n mod 10)])"

definition str_of_int :: "int \<Rightarrow> string" where
  "str_of_int i = (if i < 0 then CHR ''-'' # str_of_nat (nat (- i)) else str_of_nat (nat i))"

text \<open>
  The dictionary comprehension of \<open>us\<close>: one entry per element of the services list,
  each the float of the header's \<open>ServiceCapacity\<close>.
\<close>

definition us_of :: "header \<Rightarrow> pyval list \<Rightarrow> error + (pyval \<times> rat) list" where
  "us_of hdr svcs =
     for_each (\<lambda>d a. ebind (lookup hdr ''ServiceCapacity'') (\<lambda>v.
                      ebind (float_of_val v) (\<lambda>cap. store d a cap))) svcs []"

text \<open>
  The call \<open>SSNDInstance(...)\<close>: the arguments are evaluated in the order written, so
  the first one that raises decides the exception.
\<close>

definition build_instance :: "header \<Rightarrow> int \<Rightarrow> int \<Rightarrow> int \<Rightarrow> int \<Rightarrow> pyval
    \<Rightarrow> services_state \<Rightarrow> reqs_state \<Rightarrow> holding_state \<Rightarrow> psis_state
    \<Rightarrow> (pyval \<times> pyval) list \<Rightarrow> (pyval \<times> pyval) list \<Rightarrow> error + SSNDInstance" where
  "build_instance hdr N K F C arcs sv rq hd_st ps ein eout =
     ebind (ebind (lookup hdr ''NodeSize'') int_of_val) (\<lambda>node_size.
     ebind (ebind (lookup hdr ''TimePeriods'') elems_of_val) (\<lambda>time_periods.
     ebind (ebind (lookup hdr ''RequestSize'') int_of_val) (\<lambda>request_size.
     ebind (ebind (lookup hdr ''ServiceNoPerArc'') int_of_val) (\<lambda>service_no.
     ebind (ebind (lookup hdr ''ServiceCapacity'') int_of_val) (\<lambda>service_cap.
     ebind (ebind (lookup hdr ''FastServiceRatio'') float_of_val) (\<lambda>fast_ratio.
     ebind (ebind (lookup hdr ''RevenueRange'') elems_of_val) (\<lambda>revenue_range.
     ebind (ebind (lookup hdr ''ReqDemandRange'') elems_of_val) (\<lambda>demand_range.
     ebind (ebind (lookup hdr ''ServiceCost'') int_of_val) (\<lambda>service_cost.
     ebind (ebind (lookup hdr ''TransCost'') int_of_val) (\<lambda>trans_cost.
     ebind (ebind (lookup hdr ''HoldingCost'') int_of_val) (\<lambda>holding_cost.
     ebind (elems_of_val arcs) (\<lambda>arc_list.
     ebind (us_of hdr (fst sv)) (\<lambda>us_dict.
     Inr \<lparr> name = (case dict_get hdr ''Name'' of
                     Some v \<Rightarrow> v
                   | None \<Rightarrow> VStr (''ins_N'' @ str_of_int N @ ''_K'' @ str_of_int K @
                                   ''_Freq'' @ str_of_int F @ ''_sCap'' @ str_of_int C)),
           NodeSize = node_size,
           TimePeriods = time_periods,
           RequestSize = request_size,
           ServiceNoPerArc = service_no,
           ServiceCapacity = service_cap,
           FastServiceRatio = fast_ratio,
           RevenueRange = revenue_range,
           ReqDemandRange = demand_range,
           ServiceCost = service_cost,
           TransCost = trans_cost,
           HoldingCost = holding_cost,
           physical_arcs = arc_list,
           tnodes = [],
           services = fst sv,
           cs = fst (snd sv),
           fs = snd (snd sv),
           us = us_dict,
           reqs = r_reqs rq, os = r_os rq, ds = r_ds rq,
           alphas = r_alphas rq, betas = r_betas rq,
           is_contract = r_is_contract rq, rhos = r_rhos rq, ws = r_ws rq,
           holding_arcs = fst hd_st, chs = snd hd_st,
           alphaPsis = fst ps, betaPsis = snd ps,
           arcsEin = ein, arcsEout = eout \<rparr>)))))))))))))"

text \<open>
  The header keys that the call reads with \<open>header[...]\<close>, in the order of the
  arguments, and whether the conversion applied to the value of a key returns:
  \<open>list\<close> or \<open>tuple\<close> for the three sequences, \<open>float\<close> for the ratio, \<open>int\<close>
  for the others.
\<close>

definition required_keys :: "string list" where
  "required_keys =
     [''NodeSize'', ''TimePeriods'', ''RequestSize'', ''ServiceNoPerArc'',
      ''ServiceCapacity'', ''FastServiceRatio'', ''RevenueRange'', ''ReqDemandRange'',
      ''ServiceCost'', ''TransCost'', ''HoldingCost'']"

definition field_ok :: "string \<Rightarrow> pyval \<Rightarrow> bool" where
  "field_ok k v =
     (if k = ''TimePeriods'' \<or> k = ''RevenueRange'' \<or> k = ''ReqDemandRange''
        then \<not> isl (elems_of_val v)
      else if k = ''FastServiceRatio'' then \<not> isl (float_of_val v)
      else \<not> isl (int_of_val v))"


text \<open>
  The body of the loop of \<open>load_instances_zip\<close> for one matching entry, from the text
  of the entry to the instance.
\<close>

definition instance_of_text :: "int \<Rightarrow> int \<Rightarrow> int \<Rightarrow> int \<Rightarrow> string \<Rightarrow> error + SSNDInstance" where
  "instance_of_text N K F C text =
     (let blocks = section_blocks text
      in ebind (parse_header (get_or_empty blocks ''HEADER'')) (\<lambda>hdr.
         ebind (case dict_get blocks ''ARCS'' of
                  Some b \<Rightarrow> ebind (item b 0) lit
                | None \<Rightarrow> Inr (VList [])) (\<lambda>arcs.
         ebind (parse_services (get_or_empty blocks ''SERVICES'')) (\<lambda>sv.
         ebind (parse_reqs (get_or_empty blocks ''REQS'')) (\<lambda>rq.
         ebind (case dict_get blocks ''HOLDING'' of
                  Some b \<Rightarrow> parse_holding (get_or_empty blocks ''HOLDING'')
                | None \<Rightarrow> Inr ([], [])) (\<lambda>hd_st.
         ebind (case dict_get blocks ''PSI'' of
                  Some b \<Rightarrow> parse_psis (get_or_empty blocks ''PSI'')
                | None \<Rightarrow> Inr ([], [])) (\<lambda>ps.
         ebind (case dict_get blocks ''EIN'' of
                  Some b \<Rightarrow> parse_exec_lists (get_or_empty blocks ''EIN'')
                | None \<Rightarrow> Inr []) (\<lambda>ein.
         ebind (case dict_get blocks ''EOUT'' of
                  Some b \<Rightarrow> parse_exec_lists (get_or_empty blocks ''EOUT'')
                | None \<Rightarrow> Inr []) (\<lambda>eout.
         build_instance hdr N K F C arcs sv rq hd_st ps ein eout)))))))))"

subsection \<open>File names\<close>

text \<open>
  The two patterns are sequences of a literal text, a capturing group of one or more
  characters of a class, and the end anchor \<open>$\<close>, which also holds just before a final
  line feed. \<open>re_match\<close> matches at the start of the text and gives the groups; a group
  takes as many characters as it can and gives back one at a time.
\<close>

datatype re_item = Lit string | Group "char \<Rightarrow> bool" | Dollar

fun re_match :: "re_item list \<Rightarrow> string \<Rightarrow> string list option"
and re_group :: "re_item list \<Rightarrow> string \<Rightarrow> nat \<Rightarrow> string list option" where
  "re_match [] s = Some []"
| "re_match (Lit l # r) s =
     (if startswith s l then re_match r (drop (length l) s) else None)"
| "re_match (Dollar # r) s = (if s = [] \<or> s = [LF] then re_match r s else None)"
| "re_match (Group p # r) s = re_group r s (length (takeWhile p s))"
| "re_group r s 0 = None"
| "re_group r s (Suc n) =
     (case re_match r (drop (Suc n) s) of
        Some g \<Rightarrow> Some (take (Suc n) s # g)
      | None \<Rightarrow> re_group r s n)"

text \<open>\<open>pattern.search(s)\<close>: the match at the leftmost position that has one.\<close>

fun re_search :: "re_item list \<Rightarrow> string \<Rightarrow> string list option" where
  "re_search r [] = re_match r []"
| "re_search r (c # s) =
     (case re_match r (c # s) of Some g \<Rightarrow> Some g | None \<Rightarrow> re_search r s)"

definition INSTANCE_RE :: "re_item list" where
  "INSTANCE_RE =
     [Lit ''ins_N'', Group is_digit, Lit ''_K'', Group is_digit, Lit ''_Freq'',
      Group is_digit, Lit ''_sCap'', Group is_digit, Lit ''.txt'', Dollar]"

definition W_RE :: "re_item list" where
  "W_RE =
     [Lit ''wScenarios_N'', Group is_digit, Lit ''_K'', Group is_digit, Lit ''_Freq'',
      Group is_digit, Lit ''_sCap'', Group is_digit, Lit ''_nu'',
      Group (\<lambda>c. is_digit c \<or> c = CHR ''.''), Lit ''.txt'', Dollar]"

text \<open>\<open>name.split("/")[-1]\<close>.\<close>

definition basename :: "string \<Rightarrow> string" where
  "basename nm = last (split_on (CHR ''/'') nm)"

subsection \<open>The archive loaders\<close>

text \<open>
  An archive is the list of its entries, each a name and its decoded text, in the order
  of \<open>namelist()\<close>; names are taken to be distinct.
\<close>

type_synonym archive = "(string \<times> string) list"

type_synonym instance_key = "int \<times> int \<times> int \<times> int"

definition instance_entry :: "(instance_key \<times> SSNDInstance) list \<Rightarrow> string \<times> string
    \<Rightarrow> error + (instance_key \<times> SSNDInstance) list" where
  "instance_entry out e =
     (case re_search INSTANCE_RE (basename (fst e)) of
        None \<Rightarrow> Inr out
      | Some m \<Rightarrow>
          ebind (py_int (m ! 0)) (\<lambda>N. ebind (py_int (m ! 1)) (\<lambda>K.
          ebind (py_int (m ! 2)) (\<lambda>F. ebind (py_int (m ! 3)) (\<lambda>C.
          ebind (instance_of_text N K F C (snd e)) (\<lambda>inst.
          Inr (dict_set out (N, K, F, C) inst)))))))"

definition load_instances_zip :: "archive \<Rightarrow> error + (instance_key \<times> SSNDInstance) list" where
  "load_instances_zip zf = for_each instance_entry zf []"

record WScenarioSet =
  node_size :: int
  Kmax :: int
  freq :: int
  serv_cap :: int
  nu :: rat
  w_mu :: "(int \<times> int) list"
  rnd_ws :: "(int \<times> int list) list"

text \<open>\<open>[f(x) for x in xs]\<close> where \<open>f\<close> may raise.\<close>

fun map_err :: "('a \<Rightarrow> error + 'b) \<Rightarrow> 'a list \<Rightarrow> error + 'b list" where
  "map_err f [] = Inr []"
| "map_err f (x # xs) =
     (case f x of
        Inl e \<Rightarrow> Inl e
      | Inr y \<Rightarrow> (case map_err f xs of Inl e \<Rightarrow> Inl e | Inr ys \<Rightarrow> Inr (y # ys)))"

text \<open>\<open>[int(x) for x in draws_str.split(";") if x != ""]\<close>.\<close>

definition draws_of :: "string \<Rightarrow> error + int list" where
  "draws_of draws_str = map_err py_int (filter (\<lambda>x. x \<noteq> []) (split_on (CHR '';'') draws_str))"

type_synonym scenario_state = "(int \<times> int) list \<times> (int \<times> int list) list"

definition scenario_row :: "scenario_state \<Rightarrow> string \<Rightarrow> error + scenario_state" where
  "scenario_row st line =
     (case st of (mu, rnd) \<Rightarrow>
      ebind (unpack3 (split_on TAB line)) (\<lambda>(req_str, mu_str, draws_str).
      ebind (py_int req_str) (\<lambda>k.
      ebind (py_int mu_str) (\<lambda>m.
      ebind (draws_of draws_str) (\<lambda>draws.
      Inr (dict_set mu k m, dict_set rnd k draws))))))"

text \<open>The non-blank lines, stripped, without a first line that starts with \<open>reqs\<close>.\<close>

definition scenario_lines :: "string \<Rightarrow> string list" where
  "scenario_lines text =
     (let lines = filter (\<lambda>l. l \<noteq> []) (map strip (splitlines text))
      in if lines \<noteq> [] \<and> startswith (hd lines) ''reqs'' then tl lines else lines)"

definition scenarios_of_text :: "int \<Rightarrow> int \<Rightarrow> int \<Rightarrow> int \<Rightarrow> rat \<Rightarrow> string
    \<Rightarrow> error + WScenarioSet" where
  "scenarios_of_text N K F C v text =
     ebind (for_each scenario_row (scenario_lines text) ([], [])) (\<lambda>st.
     Inr \<lparr> node_size = N, Kmax = K, freq = F, serv_cap = C, nu = v,
           w_mu = fst st, rnd_ws = snd st \<rparr>)"

type_synonym scenario_key = "int \<times> int \<times> int \<times> int \<times> rat"

definition scenario_entry :: "(scenario_key \<times> WScenarioSet) list \<Rightarrow> string \<times> string
    \<Rightarrow> error + (scenario_key \<times> WScenarioSet) list" where
  "scenario_entry out e =
     (case re_search W_RE (basename (fst e)) of
        None \<Rightarrow> Inr out
      | Some m \<Rightarrow>
          ebind (py_int (m ! 0)) (\<lambda>N. ebind (py_int (m ! 1)) (\<lambda>K.
          ebind (py_int (m ! 2)) (\<lambda>F. ebind (py_int (m ! 3)) (\<lambda>C.
          ebind (py_float (m ! 4)) (\<lambda>v.
          ebind (scenarios_of_text N K F C v (snd e)) (\<lambda>w.
          Inr (dict_set out (N, K, F, C, v) w))))))))"

definition load_w_scenarios_zip :: "archive \<Rightarrow> error + (scenario_key \<times> WScenarioSet) list" where
  "load_w_scenarios_zip zf = for_each scenario_entry zf []"

subsection \<open>Example inputs\<close>

text \<open>
  The instance file of the specification's end-to-end example: the header lines and the
  \<open>Arcs\<close> line, then the SERVICES and REQS tables with one row each.
\<close>

definition example_header :: string where
  "example_header =
     ''NodeSize 3'' @ [LF] @ ''TimePeriods [0,1]'' @ [LF] @ ''RequestSize 1'' @ [LF] @
     ''ServiceNoPerArc 1'' @ [LF] @ ''ServiceCapacity 50'' @ [LF] @
     ''FastServiceRatio 0.5'' @ [LF] @ ''RevenueRange (1,2),(3,4)'' @ [LF] @
     ''ReqDemandRange (1,10)'' @ [LF] @ ''Trans/HoldingCost (2,1)'' @ [LF] @
     ''Name T1'' @ [LF] @ ''Arcs [(1,2),(2,3)]'' @ [LF] @ [LF]"

definition services_head :: string where
  "services_head =
     tabbed [''serviceID'', ''Services'', ''origin'', ''alpha'', ''destination'', ''beta'',
             ''TranCost'', ''fs''] @ [LF]"

definition reqs_head :: string where
  "reqs_head =
     tabbed [''reqs'', ''origins'', ''destinations'', ''alphas'', ''betas'',
             ''contract_based'', ''rhos'', ''ws''] @ [LF]"

definition example_services_row :: string where
  "example_services_row =
     tabbed [''1'', ''((1,0),(2,1))'', ''1'', ''0'', ''2'', ''1'', ''2.0'', ''5.0'']"

definition example_reqs_row :: string where
  "example_reqs_row = tabbed [''1'', ''1'', ''2'', ''0'', ''1'', ''true'', ''3.5'', ''10'']"

definition example_text :: string where
  "example_text =
     example_header @ services_head @ example_services_row @ [LF] @ [LF] @
     reqs_head @ example_reqs_row @ [LF]"

text \<open>The same file with a \<open>ServiceCost\<close> line in its header.\<close>

definition example_text_cost :: string where
  "example_text_cost = ''ServiceCost 7'' @ [LF] @ example_text"

definition example_arc :: pyval where
  "example_arc = VTuple [VTuple [VInt 1, VInt 0], VTuple [VInt 2, VInt 1]]"

definition example_instance :: SSNDInstance where
  "example_instance =
     \<lparr> name = VStr ''T1'', NodeSize = 3, TimePeriods = [VInt 0, VInt 1],
       RequestSize = 1, ServiceNoPerArc = 1, ServiceCapacity = 50,
       FastServiceRatio = 1 / 2,
       RevenueRange = [VTuple [VInt 1, VInt 2], VTuple [VInt 3, VInt 4]],
       ReqDemandRange = [VInt 1, VInt 10], ServiceCost = 7, TransCost = 2,
       HoldingCost = 1,
       physical_arcs = [VTuple [VInt 1, VInt 2], VTuple [VInt 2, VInt 3]],
       tnodes = [],
       services = [example_arc],
       cs = [(example_arc, 2)], fs = [(example_arc, 5)], us = [(example_arc, 50)],
       reqs = [1], os = [(1, 1)], ds = [(1, 2)], alphas = [(1, 0)], betas = [(1, 1)],
       is_contract = [(1, True)], rhos = [(1, 7 / 2)], ws = [(1, 10)],
       holding_arcs = [], chs = [], alphaPsis = [], betaPsis = [],
       arcsEin = [], arcsEout = [] \<rparr>"

text \<open>A SERVICES row with seven fields: the last one, the fixed cost, is missing.\<close>

definition short_services_row :: string where
  "short_services_row = tabbed [''1'', ''((1,0),(2,1))'', ''1'', ''0'', ''2'', ''1'', ''2.0'']"

text \<open>
  The example file with a second SERVICES row for the same arc, and the instance it
  loads into.
\<close>

definition dup_services_text :: string where
  "dup_services_text =
     ''ServiceCost 7'' @ [LF] @ example_header @ services_head @
     example_services_row @ [LF] @
     tabbed [''2'', ''((1,0),(2,1))'', ''1'', ''0'', ''2'', ''1'', ''3.0'', ''6.0''] @ [LF] @
     [LF] @ reqs_head @ example_reqs_row @ [LF]"

definition dup_services_instance :: SSNDInstance where
  "dup_services_instance =
     example_instance \<lparr> services := [example_arc, example_arc],
                        cs := [(example_arc, 3)], fs := [(example_arc, 6)] \<rparr>"

text \<open>
  The example file with a second REQS row for the same request id, and the instance it
  loads into.
\<close>

definition dup_reqs_text :: string where
  "dup_reqs_text =
     ''ServiceCost 7'' @ [LF] @ example_header @ services_head @
     example_services_row @ [LF] @ [LF] @ reqs_head @ example_reqs_row @ [LF] @
     tabbed [''1'', ''3'', ''2'', ''0'', ''1'', ''false'', ''4.5'', ''20''] @ [LF]"

definition dup_reqs_instance :: SSNDInstance where
  "dup_reqs_instance =
     example_instance \<lparr> reqs := [1, 1], os := [(1, 3)], is_contract := [(1, False)],
                        rhos := [(1, 9 / 2)], ws := [(1, 20)] \<rparr>"



definition example_parsed_header :: header where
  "example_parsed_header =
     [(''NodeSize'', VInt 3), (''TimePeriods'', VList [VInt 0, VInt 1]),
      (''RequestSize'', VInt 1), (''ServiceNoPerArc'', VInt 1),
      (''ServiceCapacity'', VInt 50), (''FastServiceRatio'', VFloat (1 / 2)),
      (''RevenueRange'', VTuple [VTuple [VInt 1, VInt 2], VTuple [VInt 3, VInt 4]]),
      (''ReqDemandRange'', VTuple [VInt 1, VInt 10]),
      (''TransCost'', VInt 2), (''HoldingCost'', VInt 1), (''Name'', VStr ''T1'')]"


text \<open>
  The example file with a \<open>ServiceCost\<close> line and a chosen text for the value of
  \<open>ServiceCapacity\<close>; the file whose capacity is \<open>2 ^ 53 + 1\<close>, with the instance it
  loads into; and the file whose capacity is 1 followed by 309 zeros.
\<close>

definition capacity_text :: "string \<Rightarrow> string" where
  "capacity_text cap =
     ''ServiceCost 7'' @ [LF] @ ''NodeSize 3'' @ [LF] @ ''TimePeriods [0,1]'' @ [LF] @
     ''RequestSize 1'' @ [LF] @ ''ServiceNoPerArc 1'' @ [LF] @
     ''ServiceCapacity '' @ cap @ [LF] @
     ''FastServiceRatio 0.5'' @ [LF] @ ''RevenueRange (1,2),(3,4)'' @ [LF] @
     ''ReqDemandRange (1,10)'' @ [LF] @ ''Trans/HoldingCost (2,1)'' @ [LF] @
     ''Name T1'' @ [LF] @ ''Arcs [(1,2),(2,3)]'' @ [LF] @ [LF] @
     services_head @ example_services_row @ [LF] @ [LF] @
     reqs_head @ example_reqs_row @ [LF]"

definition rounded_capacity_text :: string where
  "rounded_capacity_text = capacity_text ''9007199254740993''"

definition rounded_capacity_instance :: SSNDInstance where
  "rounded_capacity_instance =
     example_instance \<lparr> ServiceCapacity := 9007199254740993,
                        us := [(example_arc, 9007199254740992)] \<rparr>"

definition huge_capacity_text :: string where
  "huge_capacity_text = capacity_text (CHR ''1'' # replicate 309 (CHR ''0''))"

definition huge_capacity_header :: header where
  "huge_capacity_header =
     [(''ServiceCost'', VInt 7), (''NodeSize'', VInt 3),
      (''TimePeriods'', VList [VInt 0, VInt 1]),
      (''RequestSize'', VInt 1), (''ServiceNoPerArc'', VInt 1),
      (''ServiceCapacity'', VInt (int_of_digits (CHR ''1'' # replicate 309 (CHR ''0'')))),
      (''FastServiceRatio'', VFloat (1 / 2)),
      (''RevenueRange'', VTuple [VTuple [VInt 1, VInt 2], VTuple [VInt 3, VInt 4]]),
      (''ReqDemandRange'', VTuple [VInt 1, VInt 10]),
      (''TransCost'', VInt 2), (''HoldingCost'', VInt 1), (''Name'', VStr ''T1'')]"
section \<open>Properties\<close>

subsection \<open>Auxiliary facts\<close>

lemma ebind_Inr [simp]: "ebind (Inr x) f = f x"
  by (simp add: ebind_def)

lemma ebind_Inl [simp]: "ebind (Inl e) f = Inl e"
  by (simp add: ebind_def)

lemma ebind_eq_Inr: "ebind m f = Inr y \<longleftrightarrow> (\<exists>x. m = Inr x \<and> f x = Inr y)"
  by (cases m) simp_all

lemma ebind_eq_Inl: "ebind m f = Inl e \<longleftrightarrow> m = Inl e \<or> (\<exists>x. m = Inr x \<and> f x = Inl e)"
  by (cases m) simp_all

lemma split_on_nonempty: "split_on c s \<noteq> []"
  by (induction s) (auto split: list.splits)

lemma split_on_no_sep: "c \<notin> set s \<Longrightarrow> split_on c s = [s]"
  by (induction s) (auto split: list.splits)

lemma split_on_append_sep:
  "c \<notin> set x \<Longrightarrow> split_on c (x @ c # s) = x # split_on c s"
  by (induction x) (auto split: list.splits)

lemma split_on_join:
  "xs \<noteq> [] \<Longrightarrow> \<forall>x \<in> set xs. c \<notin> set x \<Longrightarrow> split_on c (join_with c xs) = xs"
proof (induction c xs rule: join_with.induct)
  case (1 c)
  then show ?case by simp
next
  case (2 c x)
  then show ?case by (simp add: split_on_no_sep)
next
  case (3 c x y ys)
  then show ?case by (simp add: split_on_append_sep)
qed

lemma py_int_error: "py_int s = Inl e \<Longrightarrow> e = IntError s"
  by (auto simp: py_int_def Let_def split: if_splits)

lemma py_float_error: "py_float s = Inl e \<Longrightarrow> e = FloatError s"
  by (auto simp: py_float_def Let_def split: if_splits)

lemma lit_error: "lit s = Inl e \<Longrightarrow> exn_class e = ''ValueError''"
  by (auto simp: lit_def split: option.splits)

lemma for_each_fails:
  "x \<in> set xs \<Longrightarrow> (\<And>s. \<exists>e. body s x = Inl e) \<Longrightarrow> \<exists>e. for_each body xs s = Inl e"
proof (induction xs arbitrary: s)
  case Nil
  then show ?case by simp
next
  case (Cons y ys)
  show ?case
  proof (cases "body s y")
    case (Inl e)
    then show ?thesis by simp
  next
    case (Inr s')
    with Cons.prems(2) [of s] have "x \<noteq> y" by auto
    with Cons.prems have "x \<in> set ys" by simp
    from Cons.IH [OF this Cons.prems(2)] Inr show ?thesis by simp
  qed
qed

lemma example_loads:
  "load_instances_zip [(''ins_N3_K1_Freq1_sCap50.txt'', example_text_cost)] =
     Inr [((3, 1, 1, 50), example_instance)]"
  by code_simp

lemma keys_dict_set:
  "keys (dict_set d k v) = (if k \<in> set (keys d) then keys d else keys d @ [k])"
  by (induction d) (fastforce simp: keys_def image_iff)+

lemma keys_Nil [simp]: "keys [] = []"
  by (simp add: keys_def)

lemma dict_get_Nil [simp]: "dict_get [] k = None"
  by (simp add: dict_get_def)

lemma dict_get_Cons [simp]:
  "dict_get ((k', v) # d) k = (if k = k' then Some v else dict_get d k)"
  by (simp add: dict_get_def)

lemma set_keys_dict_set: "set (keys (dict_set d k v)) = insert k (set (keys d))"
  by (auto simp: keys_dict_set)

lemma distinct_keys_dict_set: "distinct (keys d) \<Longrightarrow> distinct (keys (dict_set d k v))"
  by (auto simp: keys_dict_set)

lemma dict_get_dict_set:
  "dict_get (dict_set d k v) k' = (if k' = k then Some v else dict_get d k')"
  by (induction d) auto

lemma in_set_dict_set:
  "(a, b) \<in> set (dict_set d k v) \<Longrightarrow> (a, b) \<in> set d \<or> (a = k \<and> b = v)"
  by (induction d) (auto split: if_splits)

lemma dict_get_in_keys: "dict_get d k = Some v \<Longrightarrow> k \<in> set (keys d)"
  by (auto simp: dict_get_def keys_def dest: map_of_SomeD intro: rev_image_eqI)

lemma in_keys_dict_get: "k \<in> set (keys d) \<Longrightarrow> \<exists>v. dict_get d k = Some v"
  by (cases "map_of d k") (auto simp: dict_get_def keys_def map_of_eq_None_iff)

lemma header_scan_eq:
  "header_scan h lines =
     (foldl (\<lambda>h l. dict_set h (takeWhile (\<lambda>x. x \<noteq> CHR '' '') l)
                      (tl (dropWhile (\<lambda>x. x \<noteq> CHR '' '') l))) h
        (filter (\<lambda>l. CHR '' '' \<in> set l)
           (takeWhile (\<lambda>l. \<not> startswith l ''Arcs '') lines)),
      dropWhile (\<lambda>l. \<not> startswith l ''Arcs '') lines)"
  by (induction lines arbitrary: h) auto

lemma set_keys_foldl_dict_set:
  "set (keys (foldl (\<lambda>h l. dict_set h (f l) (g l)) h ls)) = set (keys h) \<union> f ` set ls"
  by (induction ls arbitrary: h) (auto simp: set_keys_dict_set)

lemma dict_get_scan_tables:
  "k \<notin> fst ` set ts \<Longrightarrow> dict_get (scan_tables ts b ls) k = dict_get b k"
proof (induction ts b ls rule: scan_tables.induct)
  case (1 blocks ls)
  then show ?case by simp
next
  case (2 sec_name header_row ts blocks ls)
  then show ?case
    by (auto simp: dict_get_dict_set split: list.splits prod.splits)
qed

lemma header_not_table: "''HEADER'' \<notin> fst ` set tables"
  by (simp add: tables_def)

lemma dict_get_header_block:
  "dict_get (section_blocks text) ''HEADER'' =
     Some (map (\<lambda>(k, v). k @ '' '' @ v) (fst (header_scan [] (map clean (splitlines text)))))"
  by (auto simp: section_blocks_def dict_get_scan_tables [OF header_not_table]
      split: prod.splits list.splits)

lemma for_each_invariant:
  assumes "for_each body xs s = Inr t" and "P s"
    and "\<And>s x s'. P s \<Longrightarrow> body s x = Inr s' \<Longrightarrow> P s'"
  shows "P t"
  using assms(1,2)
proof (induction xs arbitrary: s)
  case Nil
  then show ?case by simp
next
  case (Cons x xs)
  then show ?case
    by (cases "body s x") (auto intro: assms(3))
qed

lemma services_row_Inr:
  "services_row (sv, c, f) line = Inr t \<Longrightarrow>
     \<exists>arc x y. hashable arc \<and> t = (sv @ [arc], dict_set c arc x, dict_set f arc y)"
  by (auto simp: services_row_def Let_def ebind_eq_Inr store_def split: if_splits)

lemma parse_services_inv:
  assumes "parse_services lines = Inr (sv, c, f)"
  shows "set (keys c) = set sv \<and> set (keys f) = set sv \<and> distinct (keys c) \<and>
         distinct (keys f) \<and> (\<forall>a \<in> set sv. hashable a)"
proof -
  let ?P = "\<lambda>st. case st of (sv, c, f) \<Rightarrow>
      set (keys c) = set sv \<and> set (keys f) = set sv \<and> distinct (keys c) \<and>
      distinct (keys f) \<and> (\<forall>a \<in> set sv. hashable a)"
  have "?P (sv, c, f)"
  proof (rule for_each_invariant [where P = ?P, OF assms [unfolded parse_services_def]])
    show "?P ([], [], [])" by simp
  next
    fix s :: services_state and x s'
    assume P: "?P s" and step: "services_row s x = Inr s'"
    obtain sv0 c0 f0 where s: "s = (sv0, c0, f0)" by (cases s) auto
    from services_row_Inr [OF step [unfolded s]] obtain arc a b
      where "hashable arc" "s' = (sv0 @ [arc], dict_set c0 arc a, dict_set f0 arc b)"
      by blast
    with P s show "?P s'"
      by (auto simp: set_keys_dict_set distinct_keys_dict_set)
  qed
  then show ?thesis by simp
qed

lemma reqs_row_Inr:
  "reqs_row st line = Inr t \<Longrightarrow>
     \<exists>k a b c d e f g.
       t = \<lparr> r_reqs = r_reqs st @ [k], r_os = dict_set (r_os st) k a,
             r_ds = dict_set (r_ds st) k b, r_alphas = dict_set (r_alphas st) k c,
             r_betas = dict_set (r_betas st) k d,
             r_is_contract = dict_set (r_is_contract st) k e,
             r_rhos = dict_set (r_rhos st) k f, r_ws = dict_set (r_ws st) k g \<rparr>"
  unfolding reqs_row_def Let_def ebind_eq_Inr by blast

lemma parse_reqs_inv:
  assumes "parse_reqs lines = Inr rq"
  shows "set (keys (r_os rq)) = set (r_reqs rq) \<and> set (keys (r_ds rq)) = set (r_reqs rq) \<and>
         set (keys (r_alphas rq)) = set (r_reqs rq) \<and> set (keys (r_betas rq)) = set (r_reqs rq) \<and>
         set (keys (r_is_contract rq)) = set (r_reqs rq) \<and>
         set (keys (r_rhos rq)) = set (r_reqs rq) \<and> set (keys (r_ws rq)) = set (r_reqs rq) \<and>
         distinct (keys (r_os rq)) \<and> distinct (keys (r_ds rq)) \<and>
         distinct (keys (r_alphas rq)) \<and> distinct (keys (r_betas rq)) \<and>
         distinct (keys (r_is_contract rq)) \<and> distinct (keys (r_rhos rq)) \<and>
         distinct (keys (r_ws rq))"
    (is "?P rq")
proof (rule for_each_invariant [where P = ?P, OF assms [unfolded parse_reqs_def]])
  show "?P \<lparr> r_reqs = [], r_os = [], r_ds = [], r_alphas = [], r_betas = [],
              r_is_contract = [], r_rhos = [], r_ws = [] \<rparr>"
    by simp
next
  fix s :: reqs_state and x s'
  assume P: "?P s" and step: "reqs_row s x = Inr s'"
  from reqs_row_Inr [OF step] obtain k a b c d e f g where
    "s' = \<lparr> r_reqs = r_reqs s @ [k], r_os = dict_set (r_os s) k a,
             r_ds = dict_set (r_ds s) k b, r_alphas = dict_set (r_alphas s) k c,
             r_betas = dict_set (r_betas s) k d,
             r_is_contract = dict_set (r_is_contract s) k e,
             r_rhos = dict_set (r_rhos s) k f, r_ws = dict_set (r_ws s) k g \<rparr>"
    by blast
  with P show "?P s'"
    by (simp add: set_keys_dict_set distinct_keys_dict_set)
qed

lemma us_step_Inr:
  "ebind (lookup hdr ''ServiceCapacity'') (\<lambda>v. ebind (float_of_val v) (\<lambda>cap. store d a cap)) = Inr d'
   \<Longrightarrow> \<exists>cap. ebind (lookup hdr ''ServiceCapacity'') float_of_val = Inr cap \<and> hashable a \<and>
             d' = dict_set d a cap"
  by (auto simp: ebind_eq_Inr store_def split: if_splits)

lemma us_of_inv:
  assumes "us_of hdr svcs = Inr u"
  shows "set (keys u) = set svcs \<and> distinct (keys u) \<and>
         (\<forall>a c. dict_get u a = Some c \<longrightarrow>
            ebind (lookup hdr ''ServiceCapacity'') float_of_val = Inr c)"
proof -
  let ?body = "\<lambda>d a. ebind (lookup hdr ''ServiceCapacity'')
                 (\<lambda>v. ebind (float_of_val v) (\<lambda>cap. store d a cap))"
  have gen: "for_each ?body xs d = Inr u' \<Longrightarrow>
      set (keys u') = set (keys d) \<union> set xs \<and> (distinct (keys d) \<longrightarrow> distinct (keys u')) \<and>
      (\<forall>a c. dict_get u' a = Some c \<longrightarrow>
         dict_get d a = Some c \<or> ebind (lookup hdr ''ServiceCapacity'') float_of_val = Inr c)"
    for xs d u'
  proof (induction xs arbitrary: d)
    case Nil
    then show ?case by simp
  next
    case (Cons x xs)
    from Cons.prems obtain d1 where d1: "?body d x = Inr d1" and rest: "for_each ?body xs d1 = Inr u'"
      by (cases "?body d x") auto
    from us_step_Inr [OF d1] obtain cap where
      cap: "ebind (lookup hdr ''ServiceCapacity'') float_of_val = Inr cap" "d1 = dict_set d x cap"
      by blast
    from Cons.IH [OF rest] cap show ?case
      by (auto simp: set_keys_dict_set distinct_keys_dict_set dict_get_dict_set split: if_splits)
  qed
  from gen [OF assms [unfolded us_of_def]] show ?thesis by simp
qed

lemma build_instance_Inr:
  assumes "build_instance hdr N K F C arcs sv rq hs ps ein eout = Inr inst"
  shows "services inst = fst sv \<and> cs inst = fst (snd sv) \<and> fs inst = snd (snd sv) \<and>
         us_of hdr (fst sv) = Inr (us inst) \<and>
         reqs inst = r_reqs rq \<and> os inst = r_os rq \<and> ds inst = r_ds rq \<and>
         alphas inst = r_alphas rq \<and> betas inst = r_betas rq \<and>
         is_contract inst = r_is_contract rq \<and> rhos inst = r_rhos rq \<and> ws inst = r_ws rq \<and>
         holding_arcs inst = fst hs \<and> chs inst = snd hs \<and>
         alphaPsis inst = fst ps \<and> betaPsis inst = snd ps \<and>
         arcsEin inst = ein \<and> arcsEout inst = eout \<and>
         ebind (lookup hdr ''ServiceCapacity'') int_of_val = Inr (ServiceCapacity inst)"
  using assms unfolding build_instance_def ebind_eq_Inr by auto

lemma instance_of_text_Inr:
  assumes "instance_of_text N K F C text = Inr inst"
  shows "\<exists>hdr arcs sv rq hs ps ein eout.
           parse_header (get_or_empty (section_blocks text) ''HEADER'') = Inr hdr \<and>
           parse_services (get_or_empty (section_blocks text) ''SERVICES'') = Inr sv \<and>
           parse_reqs (get_or_empty (section_blocks text) ''REQS'') = Inr rq \<and>
           build_instance hdr N K F C arcs sv rq hs ps ein eout = Inr inst"
  using assms unfolding instance_of_text_def Let_def ebind_eq_Inr by blast

lemma load_instances_zip_entries:
  assumes "load_instances_zip zf = Inr out" and "dict_get out key = Some inst"
  shows "\<exists>N K F C text. instance_of_text N K F C text = Inr inst"
proof -
  let ?P = "\<lambda>out. \<forall>key inst. (key, inst) \<in> set out \<longrightarrow>
              (\<exists>N K F C text. instance_of_text N K F C text = Inr inst)"
  have "?P out"
  proof (rule for_each_invariant [where P = ?P, OF assms(1) [unfolded load_instances_zip_def]])
    show "?P []" by simp
  next
    fix s :: "(instance_key \<times> SSNDInstance) list" and x s'
    assume P: "?P s" and step: "instance_entry s x = Inr s'"
    show "?P s'"
    proof (cases "re_search INSTANCE_RE (basename (fst x))")
      case None
      with step P show ?thesis by (simp add: instance_entry_def)
    next
      case (Some m)
      with step obtain N K F C i where
        "instance_of_text N K F C (snd x) = Inr i" "s' = dict_set s (N, K, F, C) i"
        by (auto simp: instance_entry_def ebind_eq_Inr)
      with P show ?thesis by (blast dest: in_set_dict_set)
    qed
  qed
  moreover from assms(2) have "(key, inst) \<in> set out"
    by (auto simp: dict_get_def dest: map_of_SomeD)
  ultimately show ?thesis by blast
qed

lemma header_row_Inr:
  assumes "header_row out line = Inr out'"
  shows "\<exists>key val.
    (if key \<in> set [''NodeSize'', ''RequestSize'', ''ServiceNoPerArc'',
                         ''ServiceCapacity'', ''ServiceCost'']
            then ebind (py_int val) (\<lambda>n. Inr (dict_set out key (VInt n)))
          else if key = ''FastServiceRatio''
            then ebind (py_float val) (\<lambda>r. Inr (dict_set out key (VFloat r)))
          else if key = ''TimePeriods''
            then ebind (lit val) (\<lambda>v. Inr (dict_set out key v))
          else if key = ''RevenueRange''
            then ebind (lit val) (\<lambda>v. Inr (dict_set out key v))
          else if key = ''ReqDemandRange''
            then ebind (lit val) (\<lambda>v. Inr (dict_set out key v))
          else if key = ''Trans/HoldingCost''
            then ebind (lit val) (\<lambda>th.
                 ebind (getitem th 0) (\<lambda>t.
                 ebind (getitem th 1) (\<lambda>h.
                 Inr (dict_set (dict_set out ''TransCost'' t) ''HoldingCost'' h))))
          else if key = ''Name''
            then Inr (dict_set out ''Name'' (VStr val))
          else Inr (dict_set out key (VStr val))) = Inr out'"
proof -
  from assms [unfolded header_row_def ebind_eq_Inr] obtain p where
    b: "(case p of (key, val0) \<Rightarrow>
            let val = strip val0
            in if key \<in> set [''NodeSize'', ''RequestSize'', ''ServiceNoPerArc'',
                         ''ServiceCapacity'', ''ServiceCost'']
            then ebind (py_int val) (\<lambda>n. Inr (dict_set out key (VInt n)))
          else if key = ''FastServiceRatio''
            then ebind (py_float val) (\<lambda>r. Inr (dict_set out key (VFloat r)))
          else if key = ''TimePeriods''
            then ebind (lit val) (\<lambda>v. Inr (dict_set out key v))
          else if key = ''RevenueRange''
            then ebind (lit val) (\<lambda>v. Inr (dict_set out key v))
          else if key = ''ReqDemandRange''
            then ebind (lit val) (\<lambda>v. Inr (dict_set out key v))
          else if key = ''Trans/HoldingCost''
            then ebind (lit val) (\<lambda>th.
                 ebind (getitem th 0) (\<lambda>t.
                 ebind (getitem th 1) (\<lambda>h.
                 Inr (dict_set (dict_set out ''TransCost'' t) ''HoldingCost'' h))))
          else if key = ''Name''
            then Inr (dict_set out ''Name'' (VStr val))
          else Inr (dict_set out key (VStr val))) = Inr out'"
    by (elim exE conjE)
  obtain key val0 where p: "p = (key, val0)" by (cases p) auto
  from b [unfolded p prod.case Let_def] show ?thesis by (intro exI)
qed


lemma header_row_capacity:
  assumes "header_row out line = Inr out'"
    and "\<And>v. dict_get out ''ServiceCapacity'' = Some v \<Longrightarrow> \<exists>n. v = VInt n"
    and "dict_get out' ''ServiceCapacity'' = Some v"
  shows "\<exists>n. v = VInt n"
proof -
  from header_row_Inr [OF assms(1)] obtain key val where
    body: "(if key \<in> set [''NodeSize'', ''RequestSize'', ''ServiceNoPerArc'',
                         ''ServiceCapacity'', ''ServiceCost'']
            then ebind (py_int val) (\<lambda>n. Inr (dict_set out key (VInt n)))
          else if key = ''FastServiceRatio''
            then ebind (py_float val) (\<lambda>r. Inr (dict_set out key (VFloat r)))
          else if key = ''TimePeriods''
            then ebind (lit val) (\<lambda>v. Inr (dict_set out key v))
          else if key = ''RevenueRange''
            then ebind (lit val) (\<lambda>v. Inr (dict_set out key v))
          else if key = ''ReqDemandRange''
            then ebind (lit val) (\<lambda>v. Inr (dict_set out key v))
          else if key = ''Trans/HoldingCost''
            then ebind (lit val) (\<lambda>th.
                 ebind (getitem th 0) (\<lambda>t.
                 ebind (getitem th 1) (\<lambda>h.
                 Inr (dict_set (dict_set out ''TransCost'' t) ''HoldingCost'' h))))
          else if key = ''Name''
            then Inr (dict_set out ''Name'' (VStr val))
          else Inr (dict_set out key (VStr val))) = Inr out'"
    by (elim exE)
  show ?thesis
  proof (cases "key \<in> set [''NodeSize'', ''RequestSize'', ''ServiceNoPerArc'',
                         ''ServiceCapacity'', ''ServiceCost'']")
    case True
    from body have "ebind (py_int val) (\<lambda>n. Inr (dict_set out key (VInt n))) = Inr out'"
      by (simp only: True if_True)
    then obtain n where "out' = dict_set out key (VInt n)"
      by (auto simp: ebind_eq_Inr)
    with assms(2,3) show ?thesis
      by (auto simp: dict_get_dict_set split: if_splits)
  next
    case False
    then have ne: "key \<noteq> ''ServiceCapacity''" by auto
    from body have body':
      "(if key = ''FastServiceRatio''
            then ebind (py_float val) (\<lambda>r. Inr (dict_set out key (VFloat r)))
          else if key = ''TimePeriods''
            then ebind (lit val) (\<lambda>v. Inr (dict_set out key v))
          else if key = ''RevenueRange''
            then ebind (lit val) (\<lambda>v. Inr (dict_set out key v))
          else if key = ''ReqDemandRange''
            then ebind (lit val) (\<lambda>v. Inr (dict_set out key v))
          else if key = ''Trans/HoldingCost''
            then ebind (lit val) (\<lambda>th.
                 ebind (getitem th 0) (\<lambda>t.
                 ebind (getitem th 1) (\<lambda>h.
                 Inr (dict_set (dict_set out ''TransCost'' t) ''HoldingCost'' h))))
          else if key = ''Name''
            then Inr (dict_set out ''Name'' (VStr val))
          else Inr (dict_set out key (VStr val))) = Inr out'"
      by (simp only: False if_False)
    have "(\<exists>w. out' = dict_set out key w) \<or>
          (\<exists>t h. out' = dict_set (dict_set out ''TransCost'' t) ''HoldingCost'' h)"
      using body' by (auto simp: ebind_eq_Inr split: if_splits)
    with ne have "dict_get out' ''ServiceCapacity'' = dict_get out ''ServiceCapacity''"
      by (auto simp: dict_get_dict_set)
    with assms(2,3) show ?thesis by simp
  qed
qed

lemma parse_header_capacity:
  assumes "parse_header lines = Inr hdr" and "dict_get hdr ''ServiceCapacity'' = Some v"
  shows "\<exists>n. v = VInt n"
proof -
  let ?P = "\<lambda>h. \<forall>v. dict_get h ''ServiceCapacity'' = Some v \<longrightarrow> (\<exists>n. v = VInt n)"
  have "?P hdr"
    by (rule for_each_invariant [where P = ?P, OF assms(1) [unfolded parse_header_def]])
      (auto dest: header_row_capacity)
  with assms(2) show ?thesis by blast
qed



lemma bit_len_bound: "a < 2 ^ k \<Longrightarrow> bit_len a \<le> k"
proof (induction k arbitrary: a)
  case 0
  then show ?case by (simp add: bit_len.simps [of a])
next
  case (Suc k)
  show ?case
  proof (cases "a \<le> 0")
    case True
    then show ?thesis by (simp add: bit_len.simps [of a])
  next
    case False
    from Suc.prems have "a div 2 < 2 ^ k" by simp
    from Suc.IH [OF this] False show ?thesis by (simp add: bit_len.simps [of a])
  qed
qed

lemma round_double_exact: "\<bar>n\<bar> \<le> 2 ^ 53 \<Longrightarrow> round_double \<bar>n\<bar> = \<bar>n\<bar>"
proof (cases "\<bar>n\<bar> < 2 ^ 53")
  case True
  from bit_len_bound [OF this] show ?thesis by (simp add: round_double_def)
next
  case False
  assume "\<bar>n\<bar> \<le> 2 ^ 53"
  with False have "\<bar>n\<bar> = 9007199254740992" by simp
  moreover have "round_double 9007199254740992 = 9007199254740992" by code_simp
  ultimately show ?thesis by simp
qed

lemma float_of_int_exact:
  assumes "\<bar>n\<bar> \<le> 2 ^ 53"
  shows "float_of_int n = Inr (of_int n)"
proof -
  from assms have "\<bar>n\<bar> < 2 ^ 54" by simp
  from bit_len_bound [OF this] have "bit_len \<bar>n\<bar> \<le> 54" .
  with round_double_exact [OF assms] show ?thesis
    by (auto simp: float_of_int_def Let_def abs_if split: if_splits)
qed

lemma rounded_capacity_loads:
  "load_instances_zip [(''ins_N3_K1_Freq1_sCap50.txt'', rounded_capacity_text)] =
     Inr [((3, 1, 1, 50), rounded_capacity_instance)]"
  by code_simp

lemma dup_services_loads:
  "load_instances_zip [(''ins_N3_K1_Freq1_sCap50.txt'', dup_services_text)] =
     Inr [((3, 1, 1, 50), dup_services_instance)]"
  by code_simp

lemma dup_reqs_loads:
  "load_instances_zip [(''ins_N3_K1_Freq1_sCap50.txt'', dup_reqs_text)] =
     Inr [((3, 1, 1, 50), dup_reqs_instance)]"
  by code_simp

lemma keys_mset_iff:
  assumes "set (keys d) = set xs" and "distinct (keys d)"
  shows "mset (keys d) = mset xs \<longleftrightarrow> distinct xs"
proof
  assume "mset (keys d) = mset xs"
  with assms(2) show "distinct xs" by (metis mset_eq_imp_distinct_iff)
next
  assume "distinct xs"
  with assms show "mset (keys d) = mset xs"
    by (simp add: set_eq_iff_mset_eq_distinct)
qed











lemma lookup_InlE:
  assumes "lookup d k = Inl e"
  obtains "e = KeyError k" "dict_get d k = None"
  using assms by (auto simp: lookup_def split: option.splits)









lemma us_of_succeeds:
  assumes "svcs = [] \<or> (\<exists>c. ebind (lookup hdr ''ServiceCapacity'') float_of_val = Inr c)"
    and "\<forall>a \<in> set svcs. hashable a"
  shows "\<exists>u. us_of hdr svcs = Inr u"
proof (cases "svcs = []")
  case True
  then show ?thesis by (simp add: us_of_def)
next
  case False
  with assms(1) obtain c where
    c: "ebind (lookup hdr ''ServiceCapacity'') float_of_val = Inr c" by blast
  then obtain v where v: "lookup hdr ''ServiceCapacity'' = Inr v" "float_of_val v = Inr c"
    by (auto simp: ebind_eq_Inr)
  have "\<exists>u. for_each (\<lambda>d a. ebind (lookup hdr ''ServiceCapacity'')
            (\<lambda>v. ebind (float_of_val v) (\<lambda>cap. store d a cap))) xs d = Inr u"
    if "\<forall>a \<in> set xs. hashable a" for xs d
    using that v
    by (induction xs arbitrary: d) (auto simp: store_def)
  with assms(2) show ?thesis by (simp add: us_of_def)
qed

lemma field_present:
  assumes "case dict_get hdr k of None \<Rightarrow> False | Some v \<Rightarrow> field_ok k v"
    and "\<And>v. field_ok k v = (\<not> isl (conv v))"
  shows "\<exists>x. ebind (lookup hdr k) conv = Inr x"
proof -
  from assms(1) obtain v where v: "dict_get hdr k = Some v" "field_ok k v"
    by (auto split: option.splits)
  with assms(2) [of v] obtain x where "conv v = Inr x"
    by (cases "conv v") auto
  with v show ?thesis by (simp add: lookup_def)
qed

lemma build_instance_succeeds:
  assumes ok: "list_all (\<lambda>k. case dict_get hdr k of None \<Rightarrow> False | Some v \<Rightarrow> field_ok k v)
                 required_keys"
    and arcs: "elems_of_val arcs = Inr al"
    and u: "us_of hdr (fst sv) = Inr u"
  shows "\<exists>inst. build_instance hdr N K F C arcs sv rq hs ps ein eout = Inr inst"
proof -
  have i: "\<exists>x. ebind (lookup hdr k) int_of_val = Inr x"
    if "k \<in> set [''NodeSize'', ''RequestSize'', ''ServiceNoPerArc'', ''ServiceCapacity'',
                  ''ServiceCost'', ''TransCost'', ''HoldingCost'']" for k
  proof (rule field_present)
    from ok that show "case dict_get hdr k of None \<Rightarrow> False | Some v \<Rightarrow> field_ok k v"
      by (auto simp: required_keys_def)
    from that show "field_ok k v = (\<not> isl (int_of_val v))" for v
      by (auto simp: field_ok_def)
  qed
  have s: "\<exists>x. ebind (lookup hdr k) elems_of_val = Inr x"
    if "k \<in> set [''TimePeriods'', ''RevenueRange'', ''ReqDemandRange'']" for k
  proof (rule field_present)
    from ok that show "case dict_get hdr k of None \<Rightarrow> False | Some v \<Rightarrow> field_ok k v"
      by (auto simp: required_keys_def)
    from that show "field_ok k v = (\<not> isl (elems_of_val v))" for v
      by (auto simp: field_ok_def)
  qed
  have f: "\<exists>x. ebind (lookup hdr ''FastServiceRatio'') float_of_val = Inr x"
  proof (rule field_present)
    from ok show "case dict_get hdr ''FastServiceRatio'' of None \<Rightarrow> False
                   | Some v \<Rightarrow> field_ok ''FastServiceRatio'' v"
      by (simp add: required_keys_def)
    show "field_ok ''FastServiceRatio'' v = (\<not> isl (float_of_val v))" for v
      by (simp add: field_ok_def)
  qed
  from i [of "''NodeSize''"] obtain x1 where
    x1: "ebind (lookup hdr ''NodeSize'') int_of_val = Inr x1" by auto
  from s [of "''TimePeriods''"] obtain x2 where
    x2: "ebind (lookup hdr ''TimePeriods'') elems_of_val = Inr x2" by auto
  from i [of "''RequestSize''"] obtain x3 where
    x3: "ebind (lookup hdr ''RequestSize'') int_of_val = Inr x3" by auto
  from i [of "''ServiceNoPerArc''"] obtain x4 where
    x4: "ebind (lookup hdr ''ServiceNoPerArc'') int_of_val = Inr x4" by auto
  from i [of "''ServiceCapacity''"] obtain x5 where
    x5: "ebind (lookup hdr ''ServiceCapacity'') int_of_val = Inr x5" by auto
  from f obtain x6 where
    x6: "ebind (lookup hdr ''FastServiceRatio'') float_of_val = Inr x6" by auto
  from s [of "''RevenueRange''"] obtain x7 where
    x7: "ebind (lookup hdr ''RevenueRange'') elems_of_val = Inr x7" by auto
  from s [of "''ReqDemandRange''"] obtain x8 where
    x8: "ebind (lookup hdr ''ReqDemandRange'') elems_of_val = Inr x8" by auto
  from i [of "''ServiceCost''"] obtain x9 where
    x9: "ebind (lookup hdr ''ServiceCost'') int_of_val = Inr x9" by auto
  from i [of "''TransCost''"] obtain x10 where
    x10: "ebind (lookup hdr ''TransCost'') int_of_val = Inr x10" by auto
  from i [of "''HoldingCost''"] obtain x11 where
    x11: "ebind (lookup hdr ''HoldingCost'') int_of_val = Inr x11" by auto
  show ?thesis
    unfolding build_instance_def
    by (simp only: x1 x2 x3 x4 x5 x6 x7 x8 x9 x10 x11 arcs u ebind_Inr) blast
qed

lemma re_match_Lit: "re_match (Lit l # r) (l @ s) = re_match r s"
  by (simp add: startswith_def)

lemma re_match_Lit_Some:
  assumes "re_match (Lit l # r) s = Some gs"
  obtains s' where "s = l @ s'" "re_match r s' = Some gs"
proof -
  from assms have p: "take (length l) s = l" and m: "re_match r (drop (length l) s) = Some gs"
    by (auto simp: startswith_def split: if_splits)
  from p have "s = l @ drop (length l) s" by (metis append_take_drop_id)
  with m that show ?thesis by blast
qed

lemma re_group_Some:
  assumes "re_group r s m = Some gs"
  shows "\<exists>j g'. 0 < j \<and> j \<le> m \<and> gs = take j s # g' \<and> re_match r (drop j s) = Some g'"
  using assms
proof (induction m)
  case 0
  then show ?case by simp
next
  case (Suc m)
  show ?case
  proof (cases "re_match r (drop (Suc m) s)")
    case None
    with Suc.prems have "re_group r s m = Some gs" by simp
    from Suc.IH [OF this] show ?thesis by (metis le_Suc_eq)
  next
    case (Some g')
    with Suc.prems have "gs = take (Suc m) s # g'" by simp
    with Some show ?thesis by (metis le_refl zero_less_Suc)
  qed
qed

lemma re_match_Group_Some:
  assumes "re_match (Group p # r) s = Some gs"
  obtains g s' g' where "s = g @ s'" "g \<noteq> []" "list_all p g" "gs = g # g'"
    "re_match r s' = Some g'"
proof -
  from assms have "re_group r s (length (takeWhile p s)) = Some gs" by simp
  from re_group_Some [OF this] obtain j g' where
    j: "0 < j" "j \<le> length (takeWhile p s)" "gs = take j s # g'"
       "re_match r (drop j s) = Some g'"
    by blast
  have "take j s = take j (takeWhile p s)"
    using j(2) by (metis append_eq_conv_conj takeWhile_dropWhile_id take_append
        diff_is_0_eq' take_0 append_Nil2 take_all_iff)
  then have "list_all p (take j s)"
    by (metis in_set_takeD list_all_iff set_takeWhileD)
  moreover from j(1,2) have "take j s \<noteq> []" by auto
  moreover have "s = take j s @ drop j s" by simp
  ultimately show ?thesis using j(3,4) that by blast
qed

lemma re_match_Group:
  assumes "g \<noteq> []" and "list_all p g" and "s = [] \<or> \<not> p (hd s)"
    and "re_match r s = Some gs"
  shows "re_match (Group p # r) (g @ s) = Some (g # gs)"
proof -
  from assms(2,3) have tw: "takeWhile p (g @ s) = g"
    by (cases s) (auto simp: list_all_iff takeWhile_append2 intro: takeWhile_eq_all_conv [THEN iffD2])
  from assms(1) obtain m where m: "length g = Suc m" by (cases g) auto
  with assms(4) have "re_group r (g @ s) (Suc m) = Some (g # gs)"
    by (simp del: re_match.simps)
  with tw m show ?thesis by simp
qed

lemma re_match_Dollar: "re_match [Dollar] s = Some gs \<longleftrightarrow> gs = [] \<and> (s = [] \<or> s = [LF])"
  by auto

lemma not_digit_i: "\<not> is_digit (CHR ''i'')"
  by (simp add: is_digit_def)

lemma digit_not_i: "list_all is_digit n \<Longrightarrow> CHR ''i'' \<notin> set n"
  using not_digit_i by (auto simp: list_all_iff)

lemma instance_re_complete:
  assumes "n \<noteq> []" "list_all is_digit n" "k \<noteq> []" "list_all is_digit k"
    "f \<noteq> []" "list_all is_digit f" "c \<noteq> []" "list_all is_digit c"
  shows "re_match INSTANCE_RE
           (''ins_N'' @ n @ ''_K'' @ k @ ''_Freq'' @ f @ ''_sCap'' @ c @ ''.txt'') =
         Some [n, k, f, c]"
proof -
  have nd: "(CHR ''_'' # s) = [] \<or> \<not> is_digit (hd (CHR ''_'' # s))" for s
    by (simp add: is_digit_def)
  have d: "re_match [Lit ''.txt'', Dollar] ''.txt'' = Some []"
    by (simp add: startswith_def)
  have c: "re_match [Group is_digit, Lit ''.txt'', Dollar] (c @ ''.txt'') = Some [c]"
    by (rule re_match_Group [OF assms(7,8) _ d]) (simp add: is_digit_def)
  have c': "re_match [Lit ''_sCap'', Group is_digit, Lit ''.txt'', Dollar]
          (''_sCap'' @ c @ ''.txt'') = Some [c]"
    using c by (simp only: re_match_Lit)
  have f: "re_match [Group is_digit, Lit ''_sCap'', Group is_digit, Lit ''.txt'', Dollar]
          (f @ ''_sCap'' @ c @ ''.txt'') = Some [f, c]"
    by (rule re_match_Group [OF assms(5,6) _ c']) (simp only: append_Cons nd)
  have f': "re_match [Lit ''_Freq'', Group is_digit, Lit ''_sCap'', Group is_digit,
                      Lit ''.txt'', Dollar]
          (''_Freq'' @ f @ ''_sCap'' @ c @ ''.txt'') = Some [f, c]"
    using f by (simp only: re_match_Lit)
  have k: "re_match [Group is_digit, Lit ''_Freq'', Group is_digit, Lit ''_sCap'',
                     Group is_digit, Lit ''.txt'', Dollar]
          (k @ ''_Freq'' @ f @ ''_sCap'' @ c @ ''.txt'') = Some [k, f, c]"
    by (rule re_match_Group [OF assms(3,4) _ f']) (simp only: append_Cons nd)
  have k': "re_match [Lit ''_K'', Group is_digit, Lit ''_Freq'', Group is_digit, Lit ''_sCap'',
                  Group is_digit, Lit ''.txt'', Dollar]
          (''_K'' @ k @ ''_Freq'' @ f @ ''_sCap'' @ c @ ''.txt'') = Some [k, f, c]"
    using k by (simp only: re_match_Lit)
  have n: "re_match [Group is_digit, Lit ''_K'', Group is_digit, Lit ''_Freq'', Group is_digit,
                     Lit ''_sCap'', Group is_digit, Lit ''.txt'', Dollar]
          (n @ ''_K'' @ k @ ''_Freq'' @ f @ ''_sCap'' @ c @ ''.txt'') = Some [n, k, f, c]"
    by (rule re_match_Group [OF assms(1,2) _ k']) (simp only: append_Cons nd)
  then show ?thesis
    unfolding INSTANCE_RE_def by (simp only: re_match_Lit)
qed

lemma instance_re_shape:
  assumes "re_match INSTANCE_RE s = Some gs"
  shows "\<exists>t. s = CHR ''i'' # t \<and> CHR ''i'' \<notin> set t"
proof -
  from assms [unfolded INSTANCE_RE_def] obtain s1 where
    s1: "s = ''ins_N'' @ s1" and
    m1: "re_match [Group is_digit, Lit ''_K'', Group is_digit, Lit ''_Freq'', Group is_digit,
                   Lit ''_sCap'', Group is_digit, Lit ''.txt'', Dollar] s1 = Some gs"
    by (rule re_match_Lit_Some)
  from m1 obtain n s2 g2 where
    n: "s1 = n @ s2" "list_all is_digit n" and
    m2: "re_match [Lit ''_K'', Group is_digit, Lit ''_Freq'', Group is_digit,
                   Lit ''_sCap'', Group is_digit, Lit ''.txt'', Dollar] s2 = Some g2"
    by (rule re_match_Group_Some)
  from m2 obtain s3 where
    s3: "s2 = ''_K'' @ s3" and
    m3: "re_match [Group is_digit, Lit ''_Freq'', Group is_digit,
                   Lit ''_sCap'', Group is_digit, Lit ''.txt'', Dollar] s3 = Some g2"
    by (rule re_match_Lit_Some)
  from m3 obtain k s4 g4 where
    k: "s3 = k @ s4" "list_all is_digit k" and
    m4: "re_match [Lit ''_Freq'', Group is_digit,
                   Lit ''_sCap'', Group is_digit, Lit ''.txt'', Dollar] s4 = Some g4"
    by (rule re_match_Group_Some)
  from m4 obtain s5 where
    s5: "s4 = ''_Freq'' @ s5" and
    m5: "re_match [Group is_digit, Lit ''_sCap'', Group is_digit, Lit ''.txt'', Dollar] s5 = Some g4"
    by (rule re_match_Lit_Some)
  from m5 obtain f s6 g6 where
    f: "s5 = f @ s6" "list_all is_digit f" and
    m6: "re_match [Lit ''_sCap'', Group is_digit, Lit ''.txt'', Dollar] s6 = Some g6"
    by (rule re_match_Group_Some)
  from m6 obtain s7 where
    s7: "s6 = ''_sCap'' @ s7" and
    m7: "re_match [Group is_digit, Lit ''.txt'', Dollar] s7 = Some g6"
    by (rule re_match_Lit_Some)
  from m7 obtain c s8 g8 where
    c: "s7 = c @ s8" "list_all is_digit c" and
    m8: "re_match [Lit ''.txt'', Dollar] s8 = Some g8"
    by (rule re_match_Group_Some)
  from m8 obtain s9 where
    s9: "s8 = ''.txt'' @ s9" and
    m9: "re_match [Dollar] s9 = Some g8"
    by (rule re_match_Lit_Some)
  from m9 have e: "s9 = [] \<or> s9 = [LF]" by (simp only: re_match_Dollar)
  have "s = CHR ''i'' # (''ns_N'' @ n @ ''_K'' @ k @ ''_Freq'' @ f @ ''_sCap'' @ c @ ''.txt'' @ s9)"
    by (simp add: s1 n(1) s3 k(1) s5 f(1) s7 c(1) s9)
  moreover have "CHR ''i'' \<notin> set (''ns_N'' @ n @ ''_K'' @ k @ ''_Freq'' @ f @ ''_sCap'' @ c @ ''.txt'' @ s9)"
    using e digit_not_i [OF n(2)] digit_not_i [OF k(2)] digit_not_i [OF f(2)]
      digit_not_i [OF c(2)]
    by (auto simp: LF_def)
  ultimately show ?thesis by blast
qed

lemma re_search_suffix:
  assumes "re_match r m = Some g"
    and "\<And>x p. re_match r (x # p @ m) = None"
  shows "re_search r (pre @ m) = Some g"
proof (induction pre)
  case Nil
  from assms(1) show ?case by (cases m) simp_all
next
  case (Cons x pre)
  with assms(2) [of x pre] show ?case by simp
qed

lemma instance_re_search:
  assumes "n \<noteq> []" "list_all is_digit n" "k \<noteq> []" "list_all is_digit k"
    "f \<noteq> []" "list_all is_digit f" "c \<noteq> []" "list_all is_digit c"
  shows "re_search INSTANCE_RE
           (pre @ ''ins_N'' @ n @ ''_K'' @ k @ ''_Freq'' @ f @ ''_sCap'' @ c @ ''.txt'') =
         Some [n, k, f, c]"
proof (rule re_search_suffix [OF instance_re_complete [OF assms]])
  fix x p
  let ?m = "''ins_N'' @ n @ ''_K'' @ k @ ''_Freq'' @ f @ ''_sCap'' @ c @ ''.txt''"
  show "re_match INSTANCE_RE (x # p @ ?m) = None"
  proof (cases "re_match INSTANCE_RE (x # p @ ?m)")
    case None
    then show ?thesis .
  next
    case (Some gs)
    from instance_re_shape [OF Some] have "CHR ''i'' \<notin> set (p @ ?m)" by auto
    then show ?thesis by simp
  qed
qed

lemma split_on_sep_tail: "tl (split_on c (d @ c # b)) \<noteq> []"
  by (induction d) (auto simp: split_on_nonempty split: list.splits)

lemma last_split_on_sep: "last (split_on c (d @ c # b)) = last (split_on c b)"
proof (induction d)
  case Nil
  then show ?case by (simp add: split_on_nonempty)
next
  case (Cons x d)
  show ?case
  proof (cases "x = c")
    case True
    with Cons show ?thesis by (simp add: split_on_nonempty)
  next
    case False
    obtain y ys where y: "split_on c (d @ c # b) = y # ys"
      using split_on_nonempty [of c "d @ c # b"] by (cases "split_on c (d @ c # b)") auto
    with split_on_sep_tail [of c d b] have "ys \<noteq> []" by simp
    with False y Cons show ?thesis by simp
  qed
qed

lemma basename_plain: "CHR ''/'' \<notin> set b \<Longrightarrow> basename b = b"
  by (simp add: basename_def split_on_no_sep)

lemma basename_dir: "CHR ''/'' \<notin> set b \<Longrightarrow> basename (d @ CHR ''/'' # b) = b"
  by (simp add: basename_def last_split_on_sep split_on_no_sep)

lemma digit_not_space: "is_digit x \<Longrightarrow> \<not> is_num_space x"
  by (auto simp: is_digit_def is_num_space_def)

lemma strip_digits: "list_all is_digit n \<Longrightarrow> num_strip n = n"
proof -
  assume a: "list_all is_digit n"
  have "dropWhile is_num_space xs = xs" if "list_all is_digit xs" for xs
    using that by (cases xs) (auto dest: digit_not_space)
  from this [of n] this [of "rev n"] a show ?thesis
    by (simp add: num_strip_def list_all_iff)
qed

lemma int_of_digits_nat: "int_of_digits n = int (nat_of_digits n)"
proof -
  have "foldl (\<lambda>n c. 10 * n + int (digit_val c)) (int a) xs =
        int (foldl (\<lambda>n c. 10 * n + digit_val c) a xs)" for a xs
  proof (induction xs arbitrary: a)
    case Nil
    show ?case by simp
  next
    case (Cons x xs)
    from Cons [of "10 * a + digit_val x"] show ?case by simp
  qed
  from this [of 0 n] show ?thesis
    by (simp add: int_of_digits_def nat_of_digits_def)
qed

lemma digits_ok_digits: "n \<noteq> [] \<Longrightarrow> list_all is_digit n \<Longrightarrow> digits_ok n"
  by (induction n rule: digits_ok.induct) (auto simp: is_digit_def)

lemma py_int_digits:
  assumes "n \<noteq> []" "list_all is_digit n"
  shows "py_int n = Inr (int (nat_of_digits n))"
proof -
  from assms have h: "hd n \<noteq> CHR ''-''" "hd n \<noteq> CHR ''+''"
    by (cases n; auto simp: is_digit_def)+
  from assms(2) have "remove_char (CHR ''_'') n = n"
    by (auto simp: remove_char_def list_all_iff is_digit_def intro!: filter_True)
  with assms h digits_ok_digits [OF assms] show ?thesis
    by (simp add: py_int_def Let_def strip_digits int_of_digits_nat)
qed

lemma digit_not_slash: "list_all is_digit n \<Longrightarrow> CHR ''/'' \<notin> set n"
proof -
  have "\<not> is_digit (CHR ''/'')" by (simp add: is_digit_def)
  then show "list_all is_digit n \<Longrightarrow> CHR ''/'' \<notin> set n"
    by (auto simp: list_all_iff)
qed


text \<open>
  A dictionary that holds \<open>FastServiceRatio\<close> as an integer of 1025 bits and lacks
  \<open>ServiceCost\<close>: the constructor call raises \<open>OverflowError\<close> before the missing
  key is read. By \<open>parse_header_ratio\<close> the header parser returns no such dictionary.
\<close>

lemma integer_ratio_overflow:
  "build_instance
     (dict_set example_parsed_header ''FastServiceRatio'' (VInt (shift_left 1 1024)))
     3 1 1 50 (VList []) ([], [], [])
     \<lparr> r_reqs = [], r_os = [], r_ds = [], r_alphas = [], r_betas = [],
       r_is_contract = [], r_rhos = [], r_ws = [] \<rparr> ([], []) ([], []) [] [] =
   Inl OverflowError"
  by code_simp

subsection \<open>The end-to-end example\<close>

text \<open>
  C1, as stated, fails: the header of the example has no \<open>ServiceCost\<close> line, and the
  constructor call reads \<open>header["ServiceCost"]\<close>, so loading the example raises
  \<open>KeyError\<close> and yields no instance.
\<close>

theorem example_without_service_cost:
  "load_instances_zip [(''ins_N3_K1_Freq1_sCap50.txt'', example_text)] =
     Inl (KeyError ''ServiceCost'')"
  by code_simp

text \<open>
  C1, amended. With the line \<open>ServiceCost 7\<close> added to the header, the example file
  loads under the key \<open>(3, 1, 1, 50)\<close> into an instance whose services list is the
  one arc \<open>((1,0),(2,1))\<close>, with \<open>cs\<close> of that arc 2.0, \<open>fs\<close> of it 5.0, \<open>us\<close> of
  it 50, with \<open>reqs = [1]\<close> and \<open>is_contract[1] = True\<close>.
\<close>

theorem example_with_service_cost:
  "(case load_instances_zip [(''ins_N3_K1_Freq1_sCap50.txt'', example_text_cost)] of
      Inr [(key, inst)] \<Rightarrow>
        key = (3, 1, 1, 50) \<and>
        services inst = [example_arc] \<and>
        dict_get (cs inst) example_arc = Some 2 \<and>
        dict_get (fs inst) example_arc = Some 5 \<and>
        dict_get (us inst) example_arc = Some 50 \<and>
        reqs inst = [1] \<and>
        dict_get (is_contract inst) 1 = Some True
    | _ \<Rightarrow> False)"
  by (simp add: example_loads example_instance_def dict_get_def)

subsection \<open>A SERVICES row that is too short\<close>

text \<open>
  C2, as stated, fails: the loader has no error of its own for a malformed row. A row
  of seven fields is split without a check and the read of \<open>parts[7]\<close> raises the
  interpreter's \<open>IndexError\<close>, which carries neither the section name nor the line.
\<close>

theorem short_services_row_index_error:
  "(case parse_services [short_services_row] of
      Inl e \<Rightarrow> e = IndexError \<and> exn_class e = ''IndexError'' \<and> exn_text e = []
    | Inr r \<Rightarrow> False)"
  by code_simp

text \<open>
  C2, amended. Every SERVICES row that splits on tabs into seven fields makes the row
  parser fail: with \<open>IndexError\<close> at the read of the eighth field, or before that
  with the \<open>ValueError\<close> of the id, the arc or the cost field when that one does not
  decode. No instance is built from a section that holds such a row.
\<close>

theorem services_row_seven_fields:
  assumes "length (split_on TAB line) = 7"
  shows "(\<exists>e. services_row st line = Inl e \<and> (e = IndexError \<or> exn_class e = ''ValueError'')) \<and>
         (\<forall>lines. list_ex (\<lambda>l. l = line) lines \<longrightarrow> (\<exists>e. parse_services lines = Inl e))"
proof -
  have row: "\<exists>e. services_row s line = Inl e \<and> (e = IndexError \<or> exn_class e = ''ValueError'')"
    for s
  proof -
    obtain sv c f where s: "s = (sv, c, f)" by (cases s) auto
    let ?p = "split_on TAB line"
    have i0: "item ?p 0 = Inr (?p ! 0)" and i1: "item ?p (Suc 0) = Inr (?p ! Suc 0)"
      and i6: "item ?p 6 = Inr (?p ! 6)" and i7: "item ?p 7 = Inl IndexError"
      using assms by (simp_all add: item_def)
    show ?thesis
    proof (cases "py_int (?p ! 0)")
      case (Inl e)
      then show ?thesis
        using py_int_error [OF Inl] by (simp add: services_row_def Let_def s i0)
    next
      case sid: (Inr n)
      show ?thesis
      proof (cases "lit (?p ! Suc 0)")
        case (Inl e)
        then show ?thesis
          using lit_error [OF Inl] by (simp add: services_row_def Let_def s i0 i1 sid)
      next
        case arc: (Inr a)
        show ?thesis
        proof (cases "py_float (?p ! 6)")
          case (Inl e)
          then show ?thesis
            using py_float_error [OF Inl] by (simp add: services_row_def Let_def s i0 i1 i6 sid arc)
        next
          case (Inr x)
          then show ?thesis
            by (simp add: services_row_def Let_def s i0 i1 i6 i7 sid arc)
        qed
      qed
    qed
  qed
  have "\<exists>e. parse_services lines = Inl e" if "list_ex (\<lambda>l. l = line) lines" for lines
  proof -
    from that have "line \<in> set lines" by (auto simp: list_ex_iff)
    moreover have "\<exists>e. services_row s line = Inl e" for s using row [of s] by blast
    ultimately show ?thesis
      unfolding parse_services_def by (rule for_each_fails)
  qed
  with row [of st] show ?thesis by blast
qed

theorem services_row_seven_fields_witness:
  "(\<exists>e. services_row ([], [], []) short_services_row = Inl e \<and>
        (e = IndexError \<or> exn_class e = ''ValueError'')) \<and>
   (\<exists>e. parse_services [tabbed [''1'', ''((1,0),(2,1))'', ''1'', ''0'', ''2'', ''1'', ''2.0'', ''5.0''],
                          short_services_row] = Inl e)"
proof -
  have len: "length (split_on TAB short_services_row) = 7" by code_simp
  have ex: "list_ex (\<lambda>l. l = short_services_row)
              [tabbed [''1'', ''((1,0),(2,1))'', ''1'', ''0'', ''2'', ''1'', ''2.0'', ''5.0''],
               short_services_row]"
    by simp
  from services_row_seven_fields [OF len, of "([], [], [])"] ex show ?thesis by blast
qed

subsection \<open>A header that lacks a required key\<close>




subsection \<open>The header lines of a file\<close>

text \<open>
  C4, as stated, fails: a non-blank line before the \<open>Arcs\<close> line contributes an entry
  only if it holds a blank. The guard \<open>if " " in ln\<close> passes over a line without one,
  so the line \<open>NodeSize\<close> below leaves no entry in the HEADER section.
\<close>

theorem header_scan_skips_line_without_space:
  "section_blocks (''NodeSize'' @ [LF] @ ''Name T1'' @ [LF]) = [(''HEADER'', [''Name T1''])]"
  by code_simp

text \<open>
  C4, amended. In the section splitter the scan stops at the first line that starts with
  \<open>Arcs \<close>. Of the cleaned lines before it, each one that holds a blank is stored
  under the text before its first blank, with the text after it as value, a later line
  replacing the value of an earlier one with the same key; an empty line and a line
  without a blank contribute nothing. The keys of the header are so the keys of the
  lines with a blank, and the HEADER section lists one \<open>key value\<close> line per key.
\<close>

theorem header_section_entries:
  "(let lines = map clean (splitlines text);
        pre = takeWhile (\<lambda>l. \<not> startswith l ''Arcs '') lines;
        header = fst (header_scan [] lines)
    in snd (header_scan [] lines) = dropWhile (\<lambda>l. \<not> startswith l ''Arcs '') lines \<and>
       header = foldl (\<lambda>h l. dict_set h (takeWhile (\<lambda>x. x \<noteq> CHR '' '') l)
                               (tl (dropWhile (\<lambda>x. x \<noteq> CHR '' '') l))) []
                  (filter (\<lambda>l. CHR '' '' \<in> set l) pre) \<and>
       set (keys header) =
         {takeWhile (\<lambda>x. x \<noteq> CHR '' '') l | l. l \<in> set pre \<and> CHR '' '' \<in> set l} \<and>
       dict_get (section_blocks text) ''HEADER'' =
         Some (map (\<lambda>(k, v). k @ '' '' @ v) header))"
  unfolding Let_def
proof (intro conjI)
  let ?lines = "map clean (splitlines text)"
  show "snd (header_scan [] ?lines) = dropWhile (\<lambda>l. \<not> startswith l ''Arcs '') ?lines"
    by (simp add: header_scan_eq)
  show "fst (header_scan [] ?lines) =
        foldl (\<lambda>h l. dict_set h (takeWhile (\<lambda>x. x \<noteq> CHR '' '') l)
                        (tl (dropWhile (\<lambda>x. x \<noteq> CHR '' '') l))) []
          (filter (\<lambda>l. CHR '' '' \<in> set l) (takeWhile (\<lambda>l. \<not> startswith l ''Arcs '') ?lines))"
    by (simp add: header_scan_eq)
  show "set (keys (fst (header_scan [] ?lines))) =
        {takeWhile (\<lambda>x. x \<noteq> CHR '' '') l | l.
           l \<in> set (takeWhile (\<lambda>l. \<not> startswith l ''Arcs '') ?lines) \<and> CHR '' '' \<in> set l}"
    by (auto simp: header_scan_eq set_keys_foldl_dict_set)
  show "dict_get (section_blocks text) ''HEADER'' =
        Some (map (\<lambda>(k, v). k @ '' '' @ v) (fst (header_scan [] ?lines)))"
    by (rule dict_get_header_block)
qed

subsection \<open>Service arcs and their mappings\<close>

text \<open>
  C5, as stated, fails: every SERVICES row appends its arc to the services list, while
  \<open>cs\<close>, \<open>fs\<close> and \<open>us\<close> are dictionaries and hold a key once. With two rows
  for the same arc the list has the arc twice and each mapping has it once, so the
  multisets differ.
\<close>

theorem duplicate_service_rows:
  "(case load_instances_zip [(''ins_N3_K1_Freq1_sCap50.txt'', dup_services_text)] of
      Inr [(key, inst)] \<Rightarrow>
        services inst = [example_arc, example_arc] \<and>
        keys (cs inst) = [example_arc] \<and> keys (fs inst) = [example_arc] \<and>
        keys (us inst) = [example_arc] \<and>
        mset (keys (cs inst)) \<noteq> mset (services inst)
    | _ \<Rightarrow> False)"
  by (simp add: dup_services_loads dup_services_instance_def example_instance_def keys_def)

text \<open>
  C5, amended. For every successfully loaded instance the keys of \<open>cs\<close>, of \<open>fs\<close>
  and of \<open>us\<close> are, as sets, the arcs of the services list, each key once; the
  multiset of keys equals the multiset of the services list exactly when no arc occurs
  twice in the list.
\<close>

theorem service_keys_are_services:
  assumes "load_instances_zip zf = Inr out" and "dict_get out key = Some inst"
  shows "set (keys (cs inst)) = set (services inst) \<and>
         set (keys (fs inst)) = set (services inst) \<and>
         set (keys (us inst)) = set (services inst) \<and>
         distinct (keys (cs inst)) \<and> distinct (keys (fs inst)) \<and> distinct (keys (us inst)) \<and>
         (mset (keys (cs inst)) = mset (services inst) \<longleftrightarrow> distinct (services inst)) \<and>
         (mset (keys (fs inst)) = mset (services inst) \<longleftrightarrow> distinct (services inst)) \<and>
         (mset (keys (us inst)) = mset (services inst) \<longleftrightarrow> distinct (services inst))"
proof -
  from load_instances_zip_entries [OF assms] obtain N K F C content
    where "instance_of_text N K F C content = Inr inst" by blast
  from instance_of_text_Inr [OF this] obtain hdr arcs sv rq hs ps ein eout where
    sv: "parse_services (get_or_empty (section_blocks content) ''SERVICES'') = Inr sv" and
    b: "build_instance hdr N K F C arcs sv rq hs ps ein eout = Inr inst"
    by blast
  obtain s c f where s: "sv = (s, c, f)" by (cases sv) auto
  from build_instance_Inr [OF b] s have
    i: "services inst = s" "cs inst = c" "fs inst = f" "us_of hdr s = Inr (us inst)"
    by simp_all
  from parse_services_inv [OF sv [unfolded s]] i have
    c: "set (keys (cs inst)) = set (services inst)" "distinct (keys (cs inst))" and
    f: "set (keys (fs inst)) = set (services inst)" "distinct (keys (fs inst))"
    by simp_all
  from us_of_inv [OF i(4)] i(1) have
    u: "set (keys (us inst)) = set (services inst)" "distinct (keys (us inst))"
    by simp_all
  from c f u keys_mset_iff [OF c] keys_mset_iff [OF f] keys_mset_iff [OF u]
  show ?thesis by simp
qed

text \<open>The amended statement on the file with the repeated arc.\<close>

theorem service_keys_are_services_witness:
  "set (keys (cs dup_services_instance)) = set (services dup_services_instance) \<and>
   set (keys (fs dup_services_instance)) = set (services dup_services_instance) \<and>
   set (keys (us dup_services_instance)) = set (services dup_services_instance) \<and>
   distinct (keys (cs dup_services_instance)) \<and>
   mset (keys (cs dup_services_instance)) \<noteq> mset (services dup_services_instance)"
proof -
  have g: "dict_get [((3, 1, 1, 50) :: instance_key, dup_services_instance)] ((3, 1, 1, 50) :: instance_key) =
            Some dup_services_instance"
    by simp
  have "\<not> distinct (services dup_services_instance)"
    by (simp add: dup_services_instance_def)
  with service_keys_are_services [OF dup_services_loads g] show ?thesis by simp
qed

subsection \<open>Requests and their mappings\<close>

text \<open>
  C6, as stated, fails: every REQS row appends its id to \<open>reqs\<close>, so with two rows
  for the same id the id occurs twice in the list, while it is one key of each mapping.
\<close>

theorem duplicate_request_rows:
  "(case load_instances_zip [(''ins_N3_K1_Freq1_sCap50.txt'', dup_reqs_text)] of
      Inr [(key, inst)] \<Rightarrow>
        reqs inst = [1, 1] \<and> keys (os inst) = [1] \<and> count_list (reqs inst) 1 = 2
    | _ \<Rightarrow> False)"
  by (simp add: dup_reqs_loads dup_reqs_instance_def example_instance_def keys_def)

text \<open>
  C6, amended. For every successfully loaded instance each of the mappings \<open>os\<close>,
  \<open>ds\<close>, \<open>alphas\<close>, \<open>betas\<close>, \<open>is_contract\<close>, \<open>rhos\<close> and \<open>ws\<close> has
  exactly the ids of \<open>reqs\<close> as its keys, each key once: every key occurs in
  \<open>reqs\<close> and every id of \<open>reqs\<close> has a value. Every key occurs exactly once in
  \<open>reqs\<close> if and only if no id is repeated in the REQS rows.
\<close>

theorem request_keys_are_requests:
  assumes "load_instances_zip zf = Inr out" and "dict_get out key = Some inst"
  shows "set (keys (os inst)) = set (reqs inst) \<and> set (keys (ds inst)) = set (reqs inst) \<and>
         set (keys (alphas inst)) = set (reqs inst) \<and>
         set (keys (betas inst)) = set (reqs inst) \<and>
         set (keys (is_contract inst)) = set (reqs inst) \<and>
         set (keys (rhos inst)) = set (reqs inst) \<and> set (keys (ws inst)) = set (reqs inst) \<and>
         distinct (keys (os inst)) \<and> distinct (keys (ds inst)) \<and>
         distinct (keys (alphas inst)) \<and> distinct (keys (betas inst)) \<and>
         distinct (keys (is_contract inst)) \<and> distinct (keys (rhos inst)) \<and>
         distinct (keys (ws inst)) \<and>
         (list_all (\<lambda>k. count_list (reqs inst) k = 1) (keys (os inst)) \<longleftrightarrow>
            distinct (reqs inst))"
proof -
  from load_instances_zip_entries [OF assms] obtain N K F C content
    where "instance_of_text N K F C content = Inr inst" by blast
  from instance_of_text_Inr [OF this] obtain hdr arcs sv rq hs ps ein eout where
    rq: "parse_reqs (get_or_empty (section_blocks content) ''REQS'') = Inr rq" and
    b: "build_instance hdr N K F C arcs sv rq hs ps ein eout = Inr inst"
    by blast
  from build_instance_Inr [OF b] have
    i: "reqs inst = r_reqs rq" "os inst = r_os rq" "ds inst = r_ds rq"
       "alphas inst = r_alphas rq" "betas inst = r_betas rq"
       "is_contract inst = r_is_contract rq" "rhos inst = r_rhos rq" "ws inst = r_ws rq"
    by simp_all
  have once: "list_all (\<lambda>k. count_list xs k = 1) ys \<longleftrightarrow> distinct xs"
    if "set ys = set xs" for xs ys :: "int list"
  proof
    assume "list_all (\<lambda>k. count_list xs k = 1) ys"
    with that have "\<forall>k \<in> set xs. count_list xs k = 1" by (simp add: list_all_iff)
    then show "distinct xs" by (simp add: distinct_count_atmost_1 count_mset)
  next
    assume "distinct xs"
    with that show "list_all (\<lambda>k. count_list xs k = 1) ys"
      by (auto simp: list_all_iff distinct_count_atmost_1 count_mset)
  qed
  from parse_reqs_inv [OF rq] i once [of "keys (os inst)" "reqs inst"]
  show ?thesis by simp
qed

text \<open>The amended statement on the file with the repeated id.\<close>

theorem request_keys_are_requests_witness:
  "set (keys (os dup_reqs_instance)) = set (reqs dup_reqs_instance) \<and>
   set (keys (ws dup_reqs_instance)) = set (reqs dup_reqs_instance) \<and>
   distinct (keys (os dup_reqs_instance)) \<and>
   \<not> list_all (\<lambda>k. count_list (reqs dup_reqs_instance) k = 1) (keys (os dup_reqs_instance))"
proof -
  have g: "dict_get [((3, 1, 1, 50) :: instance_key, dup_reqs_instance)] ((3, 1, 1, 50) :: instance_key) =
            Some dup_reqs_instance"
    by simp
  have "\<not> distinct (reqs dup_reqs_instance)"
    by (simp add: dup_reqs_instance_def)
  with request_keys_are_requests [OF dup_reqs_loads g] show ?thesis by simp
qed

subsection \<open>Uniform capacity\<close>

text \<open>
  C7, as stated, fails: \<open>us\<close> of an arc is \<open>float(header["ServiceCapacity"])\<close>, a
  binary64 value, while the field \<open>ServiceCapacity\<close> is the integer of the header.
  With \<open>ServiceCapacity 9007199254740993\<close> in the header, that is \<open>2 ^ 53 + 1\<close>, the
  file loads, the header and the field hold 9007199254740993, and \<open>us\<close> of the one
  arc is 9007199254740992.0, which is another number.
\<close>

theorem rounded_capacity_differs:
  "ebind (parse_header (get_or_empty (section_blocks rounded_capacity_text) ''HEADER''))
     (\<lambda>hdr. lookup hdr ''ServiceCapacity'') = Inr (VInt 9007199254740993) \<and>
   load_instances_zip [(''ins_N3_K1_Freq1_sCap50.txt'', rounded_capacity_text)] =
     Inr [((3, 1, 1, 50), rounded_capacity_instance)] \<and>
   services rounded_capacity_instance = [example_arc] \<and>
   ServiceCapacity rounded_capacity_instance = 9007199254740993 \<and>
   dict_get (us rounded_capacity_instance) example_arc = Some 9007199254740992 \<and>
   dict_get (us rounded_capacity_instance) example_arc \<noteq>
     Some (of_int (ServiceCapacity rounded_capacity_instance))"
proof (intro conjI)
  show "ebind (parse_header (get_or_empty (section_blocks rounded_capacity_text) ''HEADER''))
          (\<lambda>hdr. lookup hdr ''ServiceCapacity'') = Inr (VInt 9007199254740993)"
    by code_simp
  show "load_instances_zip [(''ins_N3_K1_Freq1_sCap50.txt'', rounded_capacity_text)] =
          Inr [((3, 1, 1, 50), rounded_capacity_instance)]"
    by (rule rounded_capacity_loads)
  show "services rounded_capacity_instance = [example_arc]"
    by (simp add: rounded_capacity_instance_def example_instance_def)
  show "ServiceCapacity rounded_capacity_instance = 9007199254740993"
    by (simp add: rounded_capacity_instance_def)
  show "dict_get (us rounded_capacity_instance) example_arc = Some 9007199254740992"
    by (simp add: rounded_capacity_instance_def)
  show "dict_get (us rounded_capacity_instance) example_arc \<noteq>
          Some (of_int (ServiceCapacity rounded_capacity_instance))"
    by (simp add: rounded_capacity_instance_def)
qed

text \<open>
  C7, amended. For every successfully loaded instance and every arc of its services
  list, \<open>us\<close> of the arc is the float of the header's \<open>ServiceCapacity\<close>, that is,
  the binary64 value nearest to that integer, whatever the rows of the file hold: the
  value is read from the header alone. It equals \<open>ServiceCapacity\<close> whenever the
  capacity is at most \<open>2 ^ 53\<close> in absolute value.
\<close>

theorem uniform_capacity:
  assumes "load_instances_zip zf = Inr out" and "dict_get out key = Some inst"
  shows "\<forall>a \<in> set (services inst).
           (\<exists>c. float_of_int (ServiceCapacity inst) = Inr c \<and>
                dict_get (us inst) a = Some c) \<and>
           (\<bar>ServiceCapacity inst\<bar> \<le> 2 ^ 53 \<longrightarrow>
              dict_get (us inst) a = Some (of_int (ServiceCapacity inst)))"
proof
  fix a assume a: "a \<in> set (services inst)"
  from load_instances_zip_entries [OF assms] obtain N K F C content
    where "instance_of_text N K F C content = Inr inst" by blast
  from instance_of_text_Inr [OF this] obtain hdr arcs sv rq hs ps ein eout where
    h: "parse_header (get_or_empty (section_blocks content) ''HEADER'') = Inr hdr" and
    b: "build_instance hdr N K F C arcs sv rq hs ps ein eout = Inr inst"
    by blast
  from build_instance_Inr [OF b] have
    i: "services inst = fst sv" "us_of hdr (fst sv) = Inr (us inst)"
       "ebind (lookup hdr ''ServiceCapacity'') int_of_val = Inr (ServiceCapacity inst)"
    by simp_all
  from i(3) obtain v where v: "dict_get hdr ''ServiceCapacity'' = Some v"
    and iv: "int_of_val v = Inr (ServiceCapacity inst)"
    by (auto simp: ebind_eq_Inr lookup_def split: option.splits)
  from parse_header_capacity [OF h v] obtain n where n: "v = VInt n" by blast
  with iv have cap: "ServiceCapacity inst = n" by simp
  from v n have fl: "ebind (lookup hdr ''ServiceCapacity'') float_of_val = float_of_int n"
    by (simp add: lookup_def)
  from us_of_inv [OF i(2)] a i(1) have "a \<in> set (keys (us inst))" by simp
  then obtain c where c: "dict_get (us inst) a = Some c" by (blast dest: in_keys_dict_get)
  with us_of_inv [OF i(2)] fl have fc: "float_of_int n = Inr c" by auto
  have "c = of_int n" if "\<bar>n\<bar> \<le> 2 ^ 53"
    using float_of_int_exact [OF that] fc by simp
  with c fc cap show
    "(\<exists>c. float_of_int (ServiceCapacity inst) = Inr c \<and> dict_get (us inst) a = Some c) \<and>
     (\<bar>ServiceCapacity inst\<bar> \<le> 2 ^ 53 \<longrightarrow>
        dict_get (us inst) a = Some (of_int (ServiceCapacity inst)))"
    by simp
qed

text \<open>On the file with two SERVICES rows the one arc has the capacity 50.\<close>

theorem uniform_capacity_witness:
  "dict_get (us dup_services_instance) example_arc =
     Some (of_int (ServiceCapacity dup_services_instance)) \<and>
   ServiceCapacity dup_services_instance = 50"
proof -
  have g: "dict_get [((3, 1, 1, 50) :: instance_key, dup_services_instance)] ((3, 1, 1, 50) :: instance_key) =
            Some dup_services_instance"
    by simp
  have m: "example_arc \<in> set (services dup_services_instance)"
    by (simp add: dup_services_instance_def)
  have s: "ServiceCapacity dup_services_instance = 50"
    by (simp add: dup_services_instance_def example_instance_def)
  have "\<bar>ServiceCapacity dup_services_instance\<bar> \<le> 2 ^ 53"
    by (simp add: s)
  with uniform_capacity [OF dup_services_loads g, rule_format, OF m] s show ?thesis
    by simp
qed

subsection \<open>Files without the optional sections\<close>

text \<open>
  C8, as stated, fails: a file whose four optional sections are absent and whose
  header, \<open>Arcs\<close> line, SERVICES and REQS rows all parse can still fail to load. The
  header stores \<open>ServiceCapacity\<close> as an integer of any size, and \<open>us\<close> calls
  \<open>float\<close> on it for each service arc. With a capacity of 1 followed by 309 zeros
  and one SERVICES row, every section parses, every required key is present with a
  value that the conversion of its own field accepts, and loading raises
  \<open>OverflowError\<close>.
\<close>

theorem huge_capacity_overflow:
  "dict_get (section_blocks huge_capacity_text) ''HOLDING'' = None \<and>
   dict_get (section_blocks huge_capacity_text) ''PSI'' = None \<and>
   dict_get (section_blocks huge_capacity_text) ''EIN'' = None \<and>
   dict_get (section_blocks huge_capacity_text) ''EOUT'' = None \<and>
   parse_header (get_or_empty (section_blocks huge_capacity_text) ''HEADER'') =
     Inr huge_capacity_header \<and>
   list_all (\<lambda>k. case dict_get huge_capacity_header k of None \<Rightarrow> False
                  | Some v \<Rightarrow> field_ok k v) required_keys \<and>
   dict_get (section_blocks huge_capacity_text) ''ARCS'' = Some [''[(1,2),(2,3)]''] \<and>
   ebind (lit ''[(1,2),(2,3)]'') elems_of_val =
     Inr [VTuple [VInt 1, VInt 2], VTuple [VInt 2, VInt 3]] \<and>
   parse_services (get_or_empty (section_blocks huge_capacity_text) ''SERVICES'') =
     Inr ([example_arc], [(example_arc, 2)], [(example_arc, 5)]) \<and>
   \<not> isl (parse_reqs (get_or_empty (section_blocks huge_capacity_text) ''REQS'')) \<and>
   load_instances_zip [(''ins_N3_K1_Freq1_sCap50.txt'', huge_capacity_text)] =
     Inl OverflowError"
proof (intro conjI)
  show "dict_get (section_blocks huge_capacity_text) ''HOLDING'' = None" by code_simp
  show "dict_get (section_blocks huge_capacity_text) ''PSI'' = None" by code_simp
  show "dict_get (section_blocks huge_capacity_text) ''EIN'' = None" by code_simp
  show "dict_get (section_blocks huge_capacity_text) ''EOUT'' = None" by code_simp
  show "parse_header (get_or_empty (section_blocks huge_capacity_text) ''HEADER'') =
          Inr huge_capacity_header"
    by code_simp
  show "list_all (\<lambda>k. case dict_get huge_capacity_header k of None \<Rightarrow> False
                       | Some v \<Rightarrow> field_ok k v) required_keys"
    by code_simp
  show "dict_get (section_blocks huge_capacity_text) ''ARCS'' = Some [''[(1,2),(2,3)]'']"
    by code_simp
  show "ebind (lit ''[(1,2),(2,3)]'') elems_of_val =
          Inr [VTuple [VInt 1, VInt 2], VTuple [VInt 2, VInt 3]]"
    by code_simp
  show "parse_services (get_or_empty (section_blocks huge_capacity_text) ''SERVICES'') =
          Inr ([example_arc], [(example_arc, 2)], [(example_arc, 5)])"
    by code_simp
  show "\<not> isl (parse_reqs (get_or_empty (section_blocks huge_capacity_text) ''REQS''))"
    by code_simp
  show "load_instances_zip [(''ins_N3_K1_Freq1_sCap50.txt'', huge_capacity_text)] =
          Inl OverflowError"
    by code_simp
qed

text \<open>
  C8, amended. Take an instance file in which the HOLDING, PSI, EIN and EOUT sections
  are absent and the rest is complete: the header parses and holds every required key
  with a value that its conversion accepts, the \<open>Arcs\<close> line decodes to a list, the
  SERVICES and REQS rows parse, and, when SERVICES has a row, \<open>float\<close> of the
  header's \<open>ServiceCapacity\<close> does not overflow. Then the file loads, and the
  instance has empty \<open>holding_arcs\<close>, \<open>chs\<close>, \<open>alphaPsis\<close>, \<open>betaPsis\<close>,
  \<open>arcsEin\<close> and \<open>arcsEout\<close>, with the services and requests of the rows.
\<close>

theorem optional_sections_absent:
  assumes "dict_get (section_blocks content) ''HOLDING'' = None"
    and "dict_get (section_blocks content) ''PSI'' = None"
    and "dict_get (section_blocks content) ''EIN'' = None"
    and "dict_get (section_blocks content) ''EOUT'' = None"
    and hdr: "parse_header (get_or_empty (section_blocks content) ''HEADER'') = Inr hdr"
    and ok: "list_all (\<lambda>k. case dict_get hdr k of None \<Rightarrow> False | Some v \<Rightarrow> field_ok k v)
               required_keys"
    and arcs: "dict_get (section_blocks content) ''ARCS'' = Some [a]" "lit a = Inr arcs"
      "elems_of_val arcs = Inr al"
    and sv: "parse_services (get_or_empty (section_blocks content) ''SERVICES'') = Inr sv"
    and rq: "parse_reqs (get_or_empty (section_blocks content) ''REQS'') = Inr rq"
    and cap: "fst sv = [] \<or>
              (\<exists>c. ebind (lookup hdr ''ServiceCapacity'') float_of_val = Inr c)"
  shows "\<exists>inst. instance_of_text N K F C content = Inr inst \<and>
           holding_arcs inst = [] \<and> chs inst = [] \<and> alphaPsis inst = [] \<and>
           betaPsis inst = [] \<and> arcsEin inst = [] \<and> arcsEout inst = [] \<and>
           services inst = fst sv \<and> reqs inst = r_reqs rq"
proof -
  obtain s c f where s: "sv = (s, c, f)" by (cases sv) auto
  from parse_services_inv [OF sv [unfolded s]] s have "\<forall>x \<in> set (fst sv). hashable x"
    by simp
  from us_of_succeeds [OF cap this] obtain u where u: "us_of hdr (fst sv) = Inr u" by auto
  from build_instance_succeeds [OF ok arcs(3) u] obtain inst where
    b: "build_instance hdr N K F C arcs sv rq ([], []) ([], []) [] [] = Inr inst"
    by blast
  have "instance_of_text N K F C content = Inr inst"
    using assms(1-4) hdr arcs(1,2) sv rq b
    by (simp add: instance_of_text_def Let_def item_def)
  with build_instance_Inr [OF b] show ?thesis by simp
qed

text \<open>The example file with its \<open>ServiceCost\<close> line has none of the four sections.\<close>

theorem optional_sections_absent_witness:
  "\<exists>inst. instance_of_text 3 1 1 50 example_text_cost = Inr inst \<and>
     holding_arcs inst = [] \<and> chs inst = [] \<and> alphaPsis inst = [] \<and>
     betaPsis inst = [] \<and> arcsEin inst = [] \<and> arcsEout inst = [] \<and>
     services inst = [example_arc] \<and> reqs inst = [1]"
proof -
  let ?b = "section_blocks example_text_cost"
  let ?h = "(''ServiceCost'', VInt 7) # example_parsed_header"
  let ?sv = "([example_arc], [(example_arc, 2)], [(example_arc, 5)])"
  let ?rq = "\<lparr> r_reqs = [1], r_os = [(1, 1)], r_ds = [(1, 2)], r_alphas = [(1, 0)],
               r_betas = [(1, 1)], r_is_contract = [(1, True)], r_rhos = [(1, 7 / 2)],
               r_ws = [(1, 10)] \<rparr>"
  have 1: "dict_get ?b ''HOLDING'' = None" by code_simp
  have 2: "dict_get ?b ''PSI'' = None" by code_simp
  have 3: "dict_get ?b ''EIN'' = None" by code_simp
  have 4: "dict_get ?b ''EOUT'' = None" by code_simp
  have 5: "parse_header (get_or_empty ?b ''HEADER'') = Inr ?h" by code_simp
  have 6: "list_all (\<lambda>k. case dict_get ?h k of None \<Rightarrow> False | Some v \<Rightarrow> field_ok k v)
             required_keys"
    by code_simp
  have 7: "dict_get ?b ''ARCS'' = Some [''[(1,2),(2,3)]'']" by code_simp
  have 8: "lit ''[(1,2),(2,3)]'' = Inr (VList [VTuple [VInt 1, VInt 2], VTuple [VInt 2, VInt 3]])"
    by code_simp
  have 9: "elems_of_val (VList [VTuple [VInt 1, VInt 2], VTuple [VInt 2, VInt 3]]) =
             Inr [VTuple [VInt 1, VInt 2], VTuple [VInt 2, VInt 3]]"
    by simp
  have 10: "parse_services (get_or_empty ?b ''SERVICES'') = Inr ?sv" by code_simp
  have 11: "parse_reqs (get_or_empty ?b ''REQS'') = Inr ?rq" by code_simp
  have "ebind (lookup ?h ''ServiceCapacity'') float_of_val = Inr 50" by code_simp
  then have 12: "fst ?sv = [] \<or> (\<exists>c. ebind (lookup ?h ''ServiceCapacity'') float_of_val = Inr c)"
    by blast
  from optional_sections_absent [OF 1 2 3 4 5 6 7 8 9 10 11 12, of 3 1 1 50]
  show ?thesis by simp
qed

subsection \<open>Scenario draws\<close>

text \<open>
  C9. In the scenario file parser the draws field is split at semicolons and the empty
  pieces are dropped before any is converted, so consecutive semicolons and a trailing
  semicolon raise nothing: the field \<open>3;;5;\<close> decodes to \<open>[3, 5]\<close>, also as the
  third field of a row, and for every list of pieces joined by semicolons the result
  is the conversion of the non-empty pieces.
\<close>

theorem draws_drop_empty_tokens:
  "draws_of ''3;;5;'' = Inr [3, 5] \<and>
   scenario_row ([], []) (tabbed [''7'', ''4'', ''3;;5;'']) = Inr ([(7, 4)], [(7, [3, 5])]) \<and>
   (\<forall>ts. ts \<noteq> [] \<and> list_all (\<lambda>t. CHR '';'' \<notin> set t) ts \<longrightarrow>
      draws_of (join_with (CHR '';'') ts) = map_err py_int (filter (\<lambda>t. t \<noteq> []) ts))"
proof (intro conjI allI impI)
  show "draws_of ''3;;5;'' = Inr [3, 5]" by code_simp
  show "scenario_row ([], []) (tabbed [''7'', ''4'', ''3;;5;'']) = Inr ([(7, 4)], [(7, [3, 5])])"
    by code_simp
next
  fix ts :: "string list"
  assume h: "ts \<noteq> [] \<and> list_all (\<lambda>t. CHR '';'' \<notin> set t) ts"
  then have "split_on (CHR '';'') (join_with (CHR '';'') ts) = ts"
    by (intro split_on_join) (auto simp: list_all_iff)
  then show "draws_of (join_with (CHR '';'') ts) = map_err py_int (filter (\<lambda>t. t \<noteq> []) ts)"
    by (simp add: draws_of_def)
qed

theorem draws_drop_empty_tokens_witness:
  "draws_of (join_with (CHR '';'') [''12'', '''', '''', ''7'', '''']) = Inr [12, 7]"
proof -
  have "[''12'', '''', '''', ''7'', ''''] \<noteq> [] \<and>
        list_all (\<lambda>t. CHR '';'' \<notin> set t) [''12'', '''', '''', ''7'', '''']"
    by simp
  with draws_drop_empty_tokens
  have "draws_of (join_with (CHR '';'') [''12'', '''', '''', ''7'', '''']) =
        map_err py_int (filter (\<lambda>t. t \<noteq> []) [''12'', '''', '''', ''7'', ''''])"
    by blast
  also have "\<dots> = Inr [12, 7]" by code_simp
  finally show ?thesis .
qed

subsection \<open>File names of instance entries\<close>

text \<open>
  C10. The instance pattern is searched in the base name of an entry, the part after
  the last \<open>/\<close>, and is anchored at the end only. So a base name that ends with
  \<open>ins_N\<close>, digits, \<open>_K\<close>, digits, \<open>_Freq\<close>, digits, \<open>_sCap\<close>, digits and
  \<open>.txt\<close> is accepted whatever stands before, with the four digit strings as
  groups; an entry in a subdirectory is matched by its base name alone, and is loaded
  under the key of the four numbers.
\<close>

theorem instance_name_suffix_search:
  assumes n: "n \<noteq> [] \<and> list_all is_digit n" and k: "k \<noteq> [] \<and> list_all is_digit k"
    and f: "f \<noteq> [] \<and> list_all is_digit f" and c: "c \<noteq> [] \<and> list_all is_digit c"
    and pre: "CHR ''/'' \<notin> set pre"
  shows "re_search INSTANCE_RE
           (basename (pre @ ''ins_N'' @ n @ ''_K'' @ k @ ''_Freq'' @ f @ ''_sCap'' @ c @ ''.txt'')) =
           Some [n, k, f, c] \<and>
         re_search INSTANCE_RE
           (basename (dir @ CHR ''/'' # pre @
                      ''ins_N'' @ n @ ''_K'' @ k @ ''_Freq'' @ f @ ''_sCap'' @ c @ ''.txt'')) =
           Some [n, k, f, c] \<and>
         instance_entry out
           (dir @ CHR ''/'' # pre @
              ''ins_N'' @ n @ ''_K'' @ k @ ''_Freq'' @ f @ ''_sCap'' @ c @ ''.txt'', content) =
           ebind (instance_of_text (int (nat_of_digits n)) (int (nat_of_digits k))
                    (int (nat_of_digits f)) (int (nat_of_digits c)) content)
             (\<lambda>inst. Inr (dict_set out
                (int (nat_of_digits n), int (nat_of_digits k), int (nat_of_digits f),
                 int (nat_of_digits c)) inst))"
proof -
  let ?b = "pre @ ''ins_N'' @ n @ ''_K'' @ k @ ''_Freq'' @ f @ ''_sCap'' @ c @ ''.txt''"
  from n k f c pre have ns: "CHR ''/'' \<notin> set ?b"
    using digit_not_slash [of n] digit_not_slash [of k] digit_not_slash [of f]
      digit_not_slash [of c]
    by simp
  have s: "re_search INSTANCE_RE ?b = Some [n, k, f, c]"
    using n k f c by (intro instance_re_search) simp_all
  from ns have b1: "basename ?b = ?b" by (rule basename_plain)
  from ns have b2: "basename (dir @ CHR ''/'' # ?b) = ?b" by (rule basename_dir)
  have e: "instance_entry out (dir @ CHR ''/'' # ?b, content) =
           ebind (instance_of_text (int (nat_of_digits n)) (int (nat_of_digits k))
                    (int (nat_of_digits f)) (int (nat_of_digits c)) content)
             (\<lambda>inst. Inr (dict_set out
                (int (nat_of_digits n), int (nat_of_digits k), int (nat_of_digits f),
                 int (nat_of_digits c)) inst))"
  proof -
    have nth: "[n, k, f, c] ! 0 = n" "[n, k, f, c] ! 1 = k" "[n, k, f, c] ! 2 = f"
      "[n, k, f, c] ! 3 = c"
      by simp_all
    have pi: "py_int n = Inr (int (nat_of_digits n))" "py_int k = Inr (int (nat_of_digits k))"
      "py_int f = Inr (int (nat_of_digits f))" "py_int c = Inr (int (nat_of_digits c))"
      using n k f c by (simp_all add: py_int_digits)
    show ?thesis
      by (simp only: instance_entry_def fst_conv snd_conv b2 s option.case nth pi ebind_Inr)
  qed
  from s b1 b2 e show ?thesis by (simp only: simp_thms)
qed

text \<open>
  The name \<open>myins_N1_K2_Freq3_sCap4.txt\<close> matches, and in a subdirectory it is
  loaded under the key \<open>(1, 2, 3, 4)\<close>.
\<close>

theorem instance_name_suffix_search_witness:
  "re_search INSTANCE_RE (basename ''myins_N1_K2_Freq3_sCap4.txt'') =
     Some [''1'', ''2'', ''3'', ''4''] \<and>
   instance_entry [] (''data/sub/myins_N1_K2_Freq3_sCap4.txt'', example_text_cost) =
     Inr [((1, 2, 3, 4), example_instance)]"
proof -
  have d: "''1'' \<noteq> [] \<and> list_all is_digit ''1''" "''2'' \<noteq> [] \<and> list_all is_digit ''2''"
    "''3'' \<noteq> [] \<and> list_all is_digit ''3''" "''4'' \<noteq> [] \<and> list_all is_digit ''4''"
    by (simp_all add: is_digit_def)
  have p: "CHR ''/'' \<notin> set ''my''" by simp
  have v: "nat_of_digits ''1'' = 1" "nat_of_digits ''2'' = 2" "nat_of_digits ''3'' = 3"
    "nat_of_digits ''4'' = 4"
    by code_simp+
  have i: "instance_of_text 1 2 3 4 example_text_cost = Inr example_instance"
    by code_simp
  from instance_name_suffix_search [OF d p, of "''data/sub''" "[]" example_text_cost]
  show ?thesis by (simp add: v i)
qed

end
